theory Spec2Isabelle
  imports Main "HOL-Library.Sublist"
begin

section \<open>Python values\<close>

text \<open>
  The documents handled by \<^verbatim>\<open>GithubDB\<close> are plain Python values: what \<^verbatim>\<open>json.loads\<close>
  returns and what the caller passes as \<^verbatim>\<open>default_data\<close> or \<^verbatim>\<open>new_data\<close>. \<open>PNone\<close> is
  Python's \<^verbatim>\<open>None\<close>, a dictionary is an association list in insertion order, and \<open>PSet\<close>
  stands for a value the JSON encoder rejects. Floats are left out.
\<close>

datatype pyval =
    PNone
  | PBool bool
  | PInt int
  | PStr string
  | PList "pyval list"
  | PDict "(string \<times> pyval) list"
  | PSet "pyval list"

text \<open>Truth value testing, as in \<^verbatim>\<open>if default_data:\<close>.\<close>

fun truthy :: "pyval \<Rightarrow> bool" where
  "truthy PNone = False"
| "truthy (PBool b) = b"
| "truthy (PInt i) = (i \<noteq> 0)"
| "truthy (PStr s) = (s \<noteq> [])"
| "truthy (PList xs) = (xs \<noteq> [])"
| "truthy (PDict kvs) = (kvs \<noteq> [])"
| "truthy (PSet xs) = (xs \<noteq> [])"

text \<open>The expression \<^verbatim>\<open>a or b\<close>.\<close>

definition py_or :: "pyval \<Rightarrow> pyval \<Rightarrow> pyval" where
  "py_or a b = (if truthy a then a else b)"

text \<open>Exceptions: a \<^verbatim>\<open>GithubException\<close> with its HTTP status, or any other exception.\<close>

datatype pyexc = GithubException nat | OtherException

section \<open>The JSON library\<close>

text \<open>
  The \<^verbatim>\<open>json\<close> module is not part of the repository; it is a parameter of the model.
  \<open>encode\<close> is the serialiser called with \<^verbatim>\<open>indent=4, ensure_ascii=False\<close>: it yields the
  whole text, or raises after having produced a part of it. \<open>decode\<close> is the parser
  (\<open>None\<close>: it raises).
\<close>

datatype encoded = Encoded string | EncodeError string

record json_lib =
  encode :: "pyval \<Rightarrow> encoded"
  decode :: "string \<Rightarrow> pyval option"

text \<open>\<^verbatim>\<open>json.dumps\<close> builds the text in memory: on an error nothing of it is seen.\<close>

definition dumps :: "json_lib \<Rightarrow> pyval \<Rightarrow> pyexc + string" where
  "dumps J v = (case encode J v of Encoded s \<Rightarrow> Inr s | EncodeError p \<Rightarrow> Inl OtherException)"

text \<open>What \<^verbatim>\<open>json.dump\<close> hands to the file object, chunk after chunk, before it returns or raises.\<close>

definition emitted :: "json_lib \<Rightarrow> pyval \<Rightarrow> string" where
  "emitted J v = (case encode J v of Encoded s \<Rightarrow> s | EncodeError p \<Rightarrow> p)"

subsection \<open>An instance: the \<^verbatim>\<open>json\<close> module on ASCII texts without floats\<close>

text \<open>
  The properties below hold for every library \<open>J\<close>. To run the model on concrete inputs,
  \<open>py_json\<close> follows the pure-Python encoder (\<^verbatim>\<open>indent=4\<close>: one element or member per line,
  four spaces per level, \<^verbatim>\<open>,\<close> and \<^verbatim>\<open>: \<close> as separators, \<^verbatim>\<open>[]\<close> and \<^verbatim>\<open>{}\<close> for empty containers;
  \<^verbatim>\<open>ensure_ascii=False\<close>: only quote, backslash and control characters are escaped) and the
  decoder (\<^verbatim>\<open>null\<close>, \<^verbatim>\<open>true\<close>, \<^verbatim>\<open>false\<close>, integers, strings, arrays, objects with the last value
  of a repeated key, white space around every token, nothing after the value). A number
  with a fraction or an exponent, \<^verbatim>\<open>NaN\<close>, \<^verbatim>\<open>Infinity\<close> and a four-digit hexadecimal escape beyond 7 bits are
  outside the fragment and are rejected. The encoder returns the text it has produced and
  whether it completed; the decoder counts nesting down from the length of the text.
\<close>

definition digit_char :: "nat \<Rightarrow> char" where
  "digit_char d = char_of (48 + d)"

fun nat_repr :: "nat \<Rightarrow> string" where
  "nat_repr n = (if n < 10 then [digit_char n] else nat_repr (n div 10) @ [digit_char (n mod 10)])"

definition int_repr :: "int \<Rightarrow> string" where
  "int_repr i = (if i < 0 then CHR ''-'' # nat_repr (nat (- i)) else nat_repr (nat i))"

definition hex_char :: "nat \<Rightarrow> char" where
  "hex_char d = (if d < 10 then char_of (48 + d) else char_of (87 + d))"

definition escape_char :: "char \<Rightarrow> string" where
  "escape_char c =
     (if c = CHR ''\"'' then [CHR 0x5C, CHR ''\"'']
      else if c = CHR 0x5C then [CHR 0x5C, CHR 0x5C]
      else if c = CHR 0x0A then [CHR 0x5C, CHR ''n'']
      else if c = CHR 0x0D then [CHR 0x5C, CHR ''r'']
      else if c = CHR 0x09 then [CHR 0x5C, CHR ''t'']
      else if c = CHR 0x08 then [CHR 0x5C, CHR ''b'']
      else if c = CHR 0x0C then [CHR 0x5C, CHR ''f'']
      else if of_char c < (32::nat)
        then [CHR 0x5C, CHR ''u'', CHR ''0'', CHR ''0'',
              hex_char (of_char c div 16), hex_char (of_char c mod 16)]
      else [c])"

definition encode_str :: "string \<Rightarrow> string" where
  "encode_str s = CHR ''\"'' # concat (map escape_char s) @ [CHR ''\"'']"

definition newline_indent :: "nat \<Rightarrow> string" where
  "newline_indent level = CHR 0x0A # replicate (4 * level) CHR '' ''"

fun iterencode :: "nat \<Rightarrow> pyval \<Rightarrow> string \<times> bool"
  and iterencode_list :: "nat \<Rightarrow> pyval list \<Rightarrow> string \<times> bool"
  and iterencode_dict :: "nat \<Rightarrow> (string \<times> pyval) list \<Rightarrow> string \<times> bool" where
  "iterencode level PNone = (''null'', True)"
| "iterencode level (PBool b) = (if b then ''true'' else ''false'', True)"
| "iterencode level (PInt i) = (int_repr i, True)"
| "iterencode level (PStr s) = (encode_str s, True)"
| "iterencode level (PSet xs) = ([], False)"
| "iterencode level (PList xs) =
     (if xs = [] then (''[]'', True)
      else (case iterencode_list (Suc level) xs of
              (t, ok) \<Rightarrow>
                if ok then (''['' @ newline_indent (Suc level) @ t @ newline_indent level @ '']'', True)
                else (''['' @ newline_indent (Suc level) @ t, False)))"
| "iterencode level (PDict kvs) =
     (if kvs = [] then (''{}'', True)
      else (case iterencode_dict (Suc level) kvs of
              (t, ok) \<Rightarrow>
                if ok then (''{'' @ newline_indent (Suc level) @ t @ newline_indent level @ ''}'', True)
                else (''{'' @ newline_indent (Suc level) @ t, False)))"
| "iterencode_list level [] = ([], True)"
| "iterencode_list level (x # xs) =
     (case iterencode level x of
        (t, ok) \<Rightarrow>
          if \<not> ok then (t, False)
          else if xs = [] then (t, True)
          else (case iterencode_list level xs of
                  (u, ok') \<Rightarrow> (t @ '','' @ newline_indent level @ u, ok')))"
| "iterencode_dict level [] = ([], True)"
| "iterencode_dict level (kv # kvs) =
     (case iterencode level (snd kv) of
        (t, ok) \<Rightarrow>
          if \<not> ok then (encode_str (fst kv) @ '': '' @ t, False)
          else if kvs = [] then (encode_str (fst kv) @ '': '' @ t, True)
          else (case iterencode_dict level kvs of
                  (u, ok') \<Rightarrow>
                    (encode_str (fst kv) @ '': '' @ t @ '','' @ newline_indent level @ u, ok')))"

definition json_encode :: "pyval \<Rightarrow> encoded" where
  "json_encode v = (case iterencode 0 v of (t, ok) \<Rightarrow> if ok then Encoded t else EncodeError t)"

definition is_ws :: "char \<Rightarrow> bool" where
  "is_ws c = (c = CHR '' '' \<or> c = CHR 0x09 \<or> c = CHR 0x0A \<or> c = CHR 0x0D)"

definition skip_ws :: "string \<Rightarrow> string" where
  "skip_ws s = dropWhile is_ws s"

definition is_digit :: "char \<Rightarrow> bool" where
  "is_digit c = (48 \<le> (of_char c :: nat) \<and> (of_char c :: nat) \<le> 57)"

definition digits_value :: "string \<Rightarrow> nat" where
  "digits_value ds = foldl (\<lambda>n c. 10 * n + (of_char c - 48)) 0 ds"

definition hex_value :: "char \<Rightarrow> nat option" where
  "hex_value c =
     (let n = (of_char c :: nat) in
      if 48 \<le> n \<and> n \<le> 57 then Some (n - 48)
      else if 97 \<le> n \<and> n \<le> 102 then Some (n - 87)
      else if 65 \<le> n \<and> n \<le> 70 then Some (n - 55)
      else None)"

definition unescape :: "char \<Rightarrow> char option" where
  "unescape e =
     (if e = CHR 0x22 \<or> e = CHR 0x5C \<or> e = CHR ''/'' then Some e
      else if e = CHR ''n'' then Some (CHR 0x0A)
      else if e = CHR ''r'' then Some (CHR 0x0D)
      else if e = CHR ''t'' then Some (CHR 0x09)
      else if e = CHR ''b'' then Some (CHR 0x08)
      else if e = CHR ''f'' then Some (CHR 0x0C)
      else None)"

definition unicode_escape :: "string \<Rightarrow> char option" where
  "unicode_escape hs =
     (case map hex_value hs of
        [Some a, Some b, Some c, Some d] \<Rightarrow>
          if a = 0 \<and> b = 0 \<and> c < 8 then Some (char_of (16 * c + d)) else None
      | _ \<Rightarrow> None)"

fun scanstring :: "string \<Rightarrow> (string \<times> string) option" where
  "scanstring [] = None"
| "scanstring (c # cs) =
     (if c = CHR 0x22 then Some ([], cs)
      else if c = CHR 0x5C then
        (case cs of
           [] \<Rightarrow> None
         | e # rest \<Rightarrow>
             if e = CHR ''u'' then
               (case unicode_escape (take 4 rest) of
                  None \<Rightarrow> None
                | Some ch \<Rightarrow> map_option (\<lambda>(t, r). (ch # t, r)) (scanstring (drop 4 rest)))
             else
               (case unescape e of
                  None \<Rightarrow> None
                | Some ch \<Rightarrow> map_option (\<lambda>(t, r). (ch # t, r)) (scanstring rest)))
      else if (of_char c :: nat) < 32 then None
      else map_option (\<lambda>(t, r). (c # t, r)) (scanstring cs))"

definition scan_number :: "string \<Rightarrow> (pyval \<times> string) option" where
  "scan_number s =
     (let neg = (s \<noteq> [] \<and> hd s = CHR ''-'');
          body = (if neg then tl s else s);
          ds = (if body \<noteq> [] \<and> hd body = CHR ''0'' then ''0'' else takeWhile is_digit body);
          rest = drop (length ds) body
      in if ds = [] then None
         else if rest \<noteq> [] \<and> (hd rest = CHR ''.'' \<or> hd rest = CHR ''e'' \<or> hd rest = CHR ''E'')
           then None
         else Some (PInt (if neg then - int (digits_value ds) else int (digits_value ds)), rest))"

fun dict_set :: "(string \<times> pyval) list \<Rightarrow> string \<Rightarrow> pyval \<Rightarrow> (string \<times> pyval) list" where
  "dict_set [] k v = [(k, v)]"
| "dict_set (p # ps) k v = (if fst p = k then (k, v) # ps else p # dict_set ps k v)"

fun scan_once :: "nat \<Rightarrow> string \<Rightarrow> (pyval \<times> string) option"
  and scan_array :: "nat \<Rightarrow> pyval list \<Rightarrow> string \<Rightarrow> (pyval \<times> string) option"
  and scan_object :: "nat \<Rightarrow> (string \<times> pyval) list \<Rightarrow> string \<Rightarrow> (pyval \<times> string) option" where
  "scan_once 0 s = None"
| "scan_once (Suc n) s =
     (case s of
        [] \<Rightarrow> None
      | c # cs \<Rightarrow>
          if c = CHR 0x22 then map_option (\<lambda>(t, r). (PStr t, r)) (scanstring cs)
          else if c = CHR ''{'' then
            (if skip_ws cs \<noteq> [] \<and> hd (skip_ws cs) = CHR ''}''
             then Some (PDict [], tl (skip_ws cs)) else scan_object n [] (skip_ws cs))
          else if c = CHR ''['' then
            (if skip_ws cs \<noteq> [] \<and> hd (skip_ws cs) = CHR '']''
             then Some (PList [], tl (skip_ws cs)) else scan_array n [] (skip_ws cs))
          else if prefix ''null'' s then Some (PNone, drop 4 s)
          else if prefix ''true'' s then Some (PBool True, drop 4 s)
          else if prefix ''false'' s then Some (PBool False, drop 5 s)
          else scan_number s)"
| "scan_array 0 acc s = None"
| "scan_array (Suc n) acc s =
     (case scan_once n s of
        None \<Rightarrow> None
      | Some (v, r) \<Rightarrow>
          (case skip_ws r of
             [] \<Rightarrow> None
           | c # r' \<Rightarrow>
               if c = CHR '']'' then Some (PList (acc @ [v]), r')
               else if c = CHR '','' then scan_array n (acc @ [v]) (skip_ws r')
               else None))"
| "scan_object 0 acc s = None"
| "scan_object (Suc n) acc s =
     (case s of
        [] \<Rightarrow> None
      | q # s' \<Rightarrow>
          if q \<noteq> CHR 0x22 then None
          else
            (case scanstring s' of
               None \<Rightarrow> None
             | Some (k, r) \<Rightarrow>
                 (case skip_ws r of
                    [] \<Rightarrow> None
                  | colon # r1 \<Rightarrow>
                      if colon \<noteq> CHR '':'' then None
                      else
                        (case scan_once n (skip_ws r1) of
                           None \<Rightarrow> None
                         | Some (v, r2) \<Rightarrow>
                             (case skip_ws r2 of
                                [] \<Rightarrow> None
                              | c # r3 \<Rightarrow>
                                  if c = CHR ''}'' then Some (PDict (dict_set acc k v), r3)
                                  else if c = CHR '','' then scan_object n (dict_set acc k v) (skip_ws r3)
                                  else None)))))"

definition json_decode :: "string \<Rightarrow> pyval option" where
  "json_decode s =
     (case scan_once (Suc (length s)) (skip_ws s) of
        None \<Rightarrow> None
      | Some (v, r) \<Rightarrow> if skip_ws r = [] then Some v else None)"

definition py_json :: json_lib where
  "py_json = \<lparr>encode = json_encode, decode = json_decode\<rparr>"

section \<open>The two backing media\<close>

text \<open>
  Modelled from the spec: the remote medium (PyGithub and the repository behind it) is not
  under \<^verbatim>\<open>src/\<close>. Following the external interface and the glossary of the spec it holds one
  blob with a version token that changes on every update; \<^verbatim>\<open>get_contents\<close> returns the
  bytes and the token or reports 404; \<^verbatim>\<open>update_file\<close> succeeds only when the token supplied
  is the current one and reports 409 otherwise; \<^verbatim>\<open>create_file\<close> succeeds only when there is no
  blob; a call that fails changes nothing. What the medium does at each call is scripted by
  a list of events, one per call: it serves the call, it answers with an HTTP error status,
  the transport fails with another exception, or another writer commits just before the call
  is served. An exhausted script serves every call.

  The local medium is one file. Opening may fail; reading or writing may fail after the
  file has been opened, a write after some characters have reached the file.
\<close>

datatype event = Serve | Raise nat | Crash | Commit string

datatype fs_event = FsOk | FsOpenError | FsIOError nat

datatype request = GetContents | UpdateFile string string nat | CreateFile string string

datatype response = Fetched string nat | Done | Raised pyexc

record world =
  blob :: "(string \<times> nat) option"
  script :: "event list"
  calls :: "(request \<times> response) list"
  local_file :: "string option"
  fs_script :: "fs_event list"

definition next_event :: "world \<Rightarrow> event \<times> world" where
  "next_event w = (case script w of [] \<Rightarrow> (Serve, w) | e # es \<Rightarrow> (e, w\<lparr>script := es\<rparr>))"

definition next_fs_event :: "world \<Rightarrow> fs_event \<times> world" where
  "next_fs_event w =
     (case fs_script w of [] \<Rightarrow> (FsOk, w) | e # es \<Rightarrow> (e, w\<lparr>fs_script := es\<rparr>))"

definition land :: "event \<Rightarrow> (string \<times> nat) option \<Rightarrow> (string \<times> nat) option" where
  "land e b =
     (case e of
        Commit c \<Rightarrow> Some (c, (case b of None \<Rightarrow> 0 | Some (old, t) \<Rightarrow> Suc t))
      | _ \<Rightarrow> b)"

definition fault :: "event \<Rightarrow> pyexc option" where
  "fault e =
     (case e of
        Raise s \<Rightarrow> Some (GithubException s)
      | Crash \<Rightarrow> Some OtherException
      | _ \<Rightarrow> None)"

definition get_contents :: "world \<Rightarrow> (pyexc + string \<times> nat) \<times> world" where
  "get_contents w =
     (let (e, w1) = next_event w;
          b = land e (blob w1);
          r = (case fault e of
                 Some x \<Rightarrow> Inl x
               | None \<Rightarrow> (case b of None \<Rightarrow> Inl (GithubException 404) | Some ct \<Rightarrow> Inr ct))
      in (r, w1\<lparr>blob := b,
                calls := calls w1 @
                  [(GetContents, case r of Inl x \<Rightarrow> Raised x | Inr (c, t) \<Rightarrow> Fetched c t)]\<rparr>))"

definition update_file :: "string \<Rightarrow> string \<Rightarrow> nat \<Rightarrow> world \<Rightarrow> (pyexc + unit) \<times> world" where
  "update_file message content sha w =
     (let (e, w1) = next_event w;
          b = land e (blob w1);
          (r, b') =
            (case fault e of
               Some x \<Rightarrow> (Inl x, b)
             | None \<Rightarrow>
                 (case b of
                    None \<Rightarrow> (Inl (GithubException 404), b)
                  | Some (old, t) \<Rightarrow>
                      if t = sha then (Inr (), Some (content, Suc t))
                      else (Inl (GithubException 409), b)))
      in (r, w1\<lparr>blob := b',
                calls := calls w1 @
                  [(UpdateFile message content sha,
                    case r of Inl x \<Rightarrow> Raised x | Inr u \<Rightarrow> Done)]\<rparr>))"

definition create_file :: "string \<Rightarrow> string \<Rightarrow> world \<Rightarrow> (pyexc + unit) \<times> world" where
  "create_file message content w =
     (let (e, w1) = next_event w;
          b = land e (blob w1);
          (r, b') =
            (case fault e of
               Some x \<Rightarrow> (Inl x, b)
             | None \<Rightarrow>
                 (case b of
                    None \<Rightarrow> (Inr (), Some (content, 0))
                  | Some ct \<Rightarrow> (Inl (GithubException 422), b)))
      in (r, w1\<lparr>blob := b',
                calls := calls w1 @
                  [(CreateFile message content,
                    case r of Inl x \<Rightarrow> Raised x | Inr u \<Rightarrow> Done)]\<rparr>))"

section \<open>GithubDB\<close>

text \<open>
  The object keeps the mode it was built with. The calls to \<^verbatim>\<open>st.info\<close>, \<^verbatim>\<open>st.warning\<close> and
  \<^verbatim>\<open>st.error\<close> only display text and are left out.
\<close>

record GithubDB =
  use_local :: bool

text \<open>\<^verbatim>\<open>range(max_retries)\<close>.\<close>

definition py_range :: "int \<Rightarrow> int list" where
  "py_range n = [0..n - 1]"

subsection \<open>write\_data\<close>

text \<open>
  The handler of the inner \<^verbatim>\<open>try\<close> (lines 123 to 132): status 404 creates the file, every
  other \<^verbatim>\<open>GithubException\<close> is raised again. An exception of another class is not caught
  here. The arguments of \<^verbatim>\<open>create_file\<close> are evaluated before the call, so a serialisation
  error comes first.
\<close>

definition on_github_exception ::
    "json_lib \<Rightarrow> pyval \<Rightarrow> string \<Rightarrow> pyexc \<Rightarrow> world \<Rightarrow> (pyexc + unit) \<times> world" where
  "on_github_exception J new_data commit_message e w =
     (case e of
        GithubException s \<Rightarrow>
          if s = 404 then
            (case dumps J new_data of
               Inl x \<Rightarrow> (Inl x, w)
             | Inr body \<Rightarrow> create_file commit_message body w)
          else (Inl e, w)
      | OtherException \<Rightarrow> (Inl e, w))"

text \<open>The inner \<^verbatim>\<open>try\<close> statement (lines 113 to 132): \<open>Inr ()\<close> is \<^verbatim>\<open>return True\<close>.\<close>

definition update_or_create ::
    "json_lib \<Rightarrow> pyval \<Rightarrow> string \<Rightarrow> world \<Rightarrow> (pyexc + unit) \<times> world" where
  "update_or_create J new_data commit_message w =
     (case get_contents w of
        (Inl e, w1) \<Rightarrow> on_github_exception J new_data commit_message e w1
      | (Inr (content, sha), w1) \<Rightarrow>
          (case dumps J new_data of
             Inl x \<Rightarrow> (Inl x, w1)
           | Inr body \<Rightarrow>
               (case update_file commit_message body sha w1 of
                  (Inl e, w2) \<Rightarrow> on_github_exception J new_data commit_message e w2
                | (Inr u, w2) \<Rightarrow> (Inr (), w2))))"

text \<open>The \<^verbatim>\<open>for\<close> loop over the attempts (lines 110 to 142).\<close>

fun write_github ::
    "json_lib \<Rightarrow> pyval \<Rightarrow> string \<Rightarrow> int \<Rightarrow> int list \<Rightarrow> world \<Rightarrow> bool \<times> world" where
  "write_github J new_data commit_message max_retries [] w = (False, w)"
| "write_github J new_data commit_message max_retries (attempt # rest) w =
     (case update_or_create J new_data commit_message w of
        (Inr u, w') \<Rightarrow> (True, w')
      | (Inl (GithubException s), w') \<Rightarrow>
          if s = 409 \<and> attempt < max_retries - 1
          then write_github J new_data commit_message max_retries rest w'
          else (False, w')
      | (Inl OtherException, w') \<Rightarrow> (False, w'))"

text \<open>
  Local mode (lines 100 to 107): \<^verbatim>\<open>open(..., 'w')\<close> empties the file before anything is
  written, then \<^verbatim>\<open>json.dump\<close> writes the text piece by piece.
\<close>

definition write_local :: "json_lib \<Rightarrow> pyval \<Rightarrow> world \<Rightarrow> bool \<times> world" where
  "write_local J new_data w =
     (let (e, w1) = next_fs_event w in
      case e of
        FsOpenError \<Rightarrow> (False, w1)
      | FsIOError n \<Rightarrow> (False, w1\<lparr>local_file := Some (take n (emitted J new_data))\<rparr>)
      | FsOk \<Rightarrow>
          (case encode J new_data of
             Encoded s \<Rightarrow> (True, w1\<lparr>local_file := Some s\<rparr>)
           | EncodeError p \<Rightarrow> (False, w1\<lparr>local_file := Some p\<rparr>)))"

definition write_data ::
    "json_lib \<Rightarrow> GithubDB \<Rightarrow> world \<Rightarrow> pyval \<Rightarrow> string \<Rightarrow> int \<Rightarrow> bool \<times> world" where
  "write_data J self w new_data commit_message max_retries =
     (if use_local self then write_local J new_data w
      else write_github J new_data commit_message max_retries (py_range max_retries) w)"

subsection \<open>read\_data\<close>

definition read_local :: "json_lib \<Rightarrow> GithubDB \<Rightarrow> world \<Rightarrow> pyval \<Rightarrow> pyval \<times> world" where
  "read_local J self w default_data =
     (case local_file w of
        Some content \<Rightarrow>
          (let (e, w1) = next_fs_event w in
           case e of
             FsOk \<Rightarrow>
               (case decode J content of
                  Some v \<Rightarrow> (v, w1)
                | None \<Rightarrow> (py_or default_data (PDict []), w1))
           | _ \<Rightarrow> (py_or default_data (PDict []), w1))
      | None \<Rightarrow>
          if truthy default_data then
            (default_data,
             snd (write_data J self w default_data ''Initialize local data.json'' 3))
          else (PDict [], w))"

definition read_github :: "json_lib \<Rightarrow> GithubDB \<Rightarrow> world \<Rightarrow> pyval \<Rightarrow> pyval \<times> world" where
  "read_github J self w default_data =
     (case get_contents w of
        (Inr (content, sha), w1) \<Rightarrow>
          (case decode J content of
             Some v \<Rightarrow> (v, w1)
           | None \<Rightarrow> (PNone, w1))
      | (Inl (GithubException s), w1) \<Rightarrow>
          if s = 404 then
            (if truthy default_data then
               (case write_data J self w1 default_data ''Initialize data.json'' 3 of
                  (True, w2) \<Rightarrow> (default_data, w2)
                | (False, w2) \<Rightarrow> (py_or default_data (PDict []), w2))
             else (py_or default_data (PDict []), w1))
          else (PNone, w1)
      | (Inl OtherException, w1) \<Rightarrow> (PNone, w1))"

definition read_data :: "json_lib \<Rightarrow> GithubDB \<Rightarrow> world \<Rightarrow> pyval \<Rightarrow> pyval \<times> world" where
  "read_data J self w default_data =
     (if use_local self then read_local J self w default_data
      else read_github J self w default_data)"

section \<open>fetch\_news\<close>

text \<open>
  \<^verbatim>\<open>feedparser\<close> is a parameter: \<open>parse url\<close> is what \<^verbatim>\<open>feedparser.parse(url)\<close> does, raising
  or returning a feed with its \<^verbatim>\<open>bozo\<close> flag and its entries. An entry may lack any of its
  fields: \<^verbatim>\<open>entry.title\<close> and \<^verbatim>\<open>entry.link\<close> raise on a missing field, \<^verbatim>\<open>entry.get\<close> falls back
  to its default. The clock is read anew each time an article is built (line 69 evaluates
  \<^verbatim>\<open>str(datetime.now())\<close> before it calls \<^verbatim>\<open>entry.get\<close>): \<open>now k\<close> is the text of reading number
  \<open>k\<close> of one call, and the number of readings made so far is carried along with the
  articles.
\<close>

record entry =
  entry_title :: "string option"
  entry_link :: "string option"
  entry_summary :: "string option"
  entry_published :: "string option"

datatype parsed = ParseRaises | Feed bool "entry list"

record article =
  title :: string
  link :: string
  published :: string
  summary :: string

definition get_or :: "'a option \<Rightarrow> 'a \<Rightarrow> 'a" where
  "get_or field dflt = (case field of None \<Rightarrow> dflt | Some v \<Rightarrow> v)"

text \<open>The test of line 65: \<^verbatim>\<open>not keywords or any(k in text_content for k in keywords)\<close>.\<close>

definition keyword_hit :: "string list \<Rightarrow> string \<Rightarrow> bool" where
  "keyword_hit keywords text_content =
     (keywords = [] \<or> list_ex (\<lambda>k. sublist k text_content) keywords)"

text \<open>
  The loop over the entries of one feed (lines 60 to 71). An exception leaves the loop
  for the handler of line 72, which goes on with the next feed: the articles appended so
  far stay. The fields of the dictionary are evaluated in order: the title, the link (which
  may raise), then the clock, then the summary.
\<close>

fun collect_entries ::
    "string list \<Rightarrow> (nat \<Rightarrow> string) \<Rightarrow> entry list \<Rightarrow> article list \<times> nat \<Rightarrow> article list \<times> nat" where
  "collect_entries keywords now [] (articles, readings) = (articles, readings)"
| "collect_entries keywords now (e # es) (articles, readings) =
     (case entry_title e of
        None \<Rightarrow> (articles, readings)
      | Some t \<Rightarrow>
          if keyword_hit keywords (t @ '' '' @ get_or (entry_summary e) [])
          then
            (case entry_link e of
               None \<Rightarrow> (articles, readings)
             | Some l \<Rightarrow>
                 collect_entries keywords now es
                   (articles @
                      [\<lparr>title = t, link = l,
                        published = get_or (entry_published e) (now readings),
                        summary = get_or (entry_summary e) []\<rparr>],
                    Suc readings))
          else collect_entries keywords now es (articles, readings))"

text \<open>The loop over the feeds (lines 53 to 74).\<close>

fun collect_feeds ::
    "(string \<Rightarrow> parsed) \<Rightarrow> (nat \<Rightarrow> string) \<Rightarrow> string list \<Rightarrow> string list \<Rightarrow>
     article list \<times> nat \<Rightarrow> article list \<times> nat" where
  "collect_feeds parse now keywords [] st = st"
| "collect_feeds parse now keywords (url # feeds) st =
     (case parse url of
        ParseRaises \<Rightarrow> collect_feeds parse now keywords feeds st
      | Feed bozo entries \<Rightarrow>
          if bozo then collect_feeds parse now keywords feeds st
          else collect_feeds parse now keywords feeds (collect_entries keywords now entries st))"

definition fetch_news ::
    "(string \<Rightarrow> parsed) \<Rightarrow> (nat \<Rightarrow> string) \<Rightarrow> string list \<Rightarrow> string list \<Rightarrow> article list" where
  "fetch_news parse now feeds keywords =
     take 30 (fst (collect_feeds parse now keywords feeds ([], 0)))"

section \<open>Notions used in the properties\<close>

text \<open>
  A document \<open>v\<close> reads back: the library serialises it and parses the text into \<open>v\<close> again
  (Python's \<^verbatim>\<open>json\<close> does for a document of the schema).
\<close>

definition reads_back :: "json_lib \<Rightarrow> pyval \<Rightarrow> bool" where
  "reads_back J v = (case encode J v of Encoded s \<Rightarrow> decode J s = Some v | EncodeError p \<Rightarrow> False)"

text \<open>
  The next access to the medium is served without a fault and, on the remote medium, without
  a commit of another writer before it.
\<close>

definition undisturbed :: "GithubDB \<Rightarrow> world \<Rightarrow> bool" where
  "undisturbed self w =
     (if use_local self then fst (next_fs_event w) = FsOk else fst (next_event w) = Serve)"

text \<open>The calls made between a state and a later one.\<close>

definition trace_of :: "world \<Rightarrow> world \<Rightarrow> (request \<times> response) list" where
  "trace_of w w' = drop (length (calls w)) (calls w')"

text \<open>
  A failure that is neither a conflict nor the 404 that sends \<^verbatim>\<open>write_data\<close> to
  \<^verbatim>\<open>create_file\<close>: an exception that is no \<^verbatim>\<open>GithubException\<close> (network), a status other than
  404 and 409 (401, 403, 422, 5xx) answered to a fetch or an update, or any status other
  than 409 answered to \<^verbatim>\<open>create_file\<close>.
\<close>

fun non_conflict_failure :: "request \<times> response \<Rightarrow> bool" where
  "non_conflict_failure (rq, Raised OtherException) = True"
| "non_conflict_failure (CreateFile m b, Raised (GithubException s)) = (s \<noteq> 409)"
| "non_conflict_failure (rq, Raised (GithubException s)) = (s \<noteq> 409 \<and> s \<noteq> 404)"
| "non_conflict_failure (rq, rs) = False"

text \<open>
  How a call \<open>y\<close> may come right after a call \<open>x\<close> in one \<^verbatim>\<open>write_data\<close>: a fetch only after a
  conflict, an update only after the fetch that returned the token it passes, and nothing
  after a failure that is not a conflict.
\<close>

definition follows :: "request \<times> response \<Rightarrow> request \<times> response \<Rightarrow> bool" where
  "follows x y =
     ((fst y = GetContents \<longrightarrow> snd x = Raised (GithubException 409))
      \<and> (\<forall>m b s. fst y = UpdateFile m b s \<longrightarrow> (\<exists>c. x = (GetContents, Fetched c s)))
      \<and> \<not> non_conflict_failure x)"

text \<open>
  The calls of one attempt, as the inner \<^verbatim>\<open>try\<close> statement can make them, with the result of
  the attempt: the exception that reaches the outer handlers, or the return of true.
\<close>

definition outcome :: "pyexc + unit \<Rightarrow> response" where
  "outcome r = (case r of Inl x \<Rightarrow> Raised x | Inr u \<Rightarrow> Done)"

inductive attempt_trace ::
    "json_lib \<Rightarrow> pyval \<Rightarrow> string \<Rightarrow> pyexc + unit \<Rightarrow> (request \<times> response) list \<Rightarrow> bool"
  for J v m where
  fetch_failed:
    "e \<noteq> GithubException 404 \<Longrightarrow> attempt_trace J v m (Inl e) [(GetContents, Raised e)]"
| absent_not_serialised:
    "dumps J v = Inl y \<Longrightarrow>
     attempt_trace J v m (Inl y) [(GetContents, Raised (GithubException 404))]"
| absent_create:
    "dumps J v = Inr body \<Longrightarrow>
     attempt_trace J v m r
       [(GetContents, Raised (GithubException 404)), (CreateFile m body, outcome r)]"
| found_not_serialised:
    "dumps J v = Inl y \<Longrightarrow> attempt_trace J v m (Inl y) [(GetContents, Fetched c sha)]"
| updated:
    "dumps J v = Inr body \<Longrightarrow>
     attempt_trace J v m (Inr ()) [(GetContents, Fetched c sha), (UpdateFile m body sha, Done)]"
| update_failed:
    "dumps J v = Inr body \<Longrightarrow> e \<noteq> GithubException 404 \<Longrightarrow>
     attempt_trace J v m (Inl e)
       [(GetContents, Fetched c sha), (UpdateFile m body sha, Raised e)]"
| vanished_create:
    "dumps J v = Inr body \<Longrightarrow>
     attempt_trace J v m r
       [(GetContents, Fetched c sha), (UpdateFile m body sha, Raised (GithubException 404)),
        (CreateFile m body, outcome r)]"

text \<open>
  What a call \<open>x\<close> of one \<^verbatim>\<open>write_data\<close> obliges the next call \<open>y\<close> to be: a fetch after a
  conflict, the update with the token fetched after a fetch that found the blob, the creation
  after a 404 answered to a fetch or to an update (the document being serialised to \<open>body\<close>).
  A call is pending when the attempt it belongs to has to go on after it.
\<close>

definition leads ::
    "json_lib \<Rightarrow> pyval \<Rightarrow> string \<Rightarrow> request \<times> response \<Rightarrow> request \<times> response \<Rightarrow> bool" where
  "leads J v m x y =
     ((snd x = Raised (GithubException 409) \<longrightarrow> fst y = GetContents)
      \<and> (\<forall>c s body. x = (GetContents, Fetched c s) \<and> dumps J v = Inr body \<longrightarrow>
             fst y = UpdateFile m body s)
      \<and> (\<forall>body. snd x = Raised (GithubException 404) \<and> (\<forall>m' b'. fst x \<noteq> CreateFile m' b')
             \<and> dumps J v = Inr body \<longrightarrow>
             fst y = CreateFile m body))"

definition pending :: "json_lib \<Rightarrow> pyval \<Rightarrow> request \<times> response \<Rightarrow> bool" where
  "pending J v x =
     ((\<exists>body. dumps J v = Inr body)
      \<and> ((\<exists>c s. x = (GetContents, Fetched c s))
         \<or> (snd x = Raised (GithubException 404) \<and> (\<forall>m' b'. fst x \<noteq> CreateFile m' b'))))"

text \<open>What the events \<open>es\<close> alone do to the blob: the commits of the other writers.\<close>

definition replay :: "event list \<Rightarrow> (string \<times> nat) option \<Rightarrow> (string \<times> nat) option" where
  "replay es b = foldl (\<lambda>b' e. land e b') b es"

text \<open>No other writer commits during the calls to come.\<close>

definition no_commit :: "world \<Rightarrow> bool" where
  "no_commit w = (\<forall>c. Commit c \<notin> set (script w))"

section \<open>Concrete stores\<close>

text \<open>
  The two modes, a store with nothing in it, and the document \<^verbatim>\<open>app.py\<close> seeds the store
  with (line 112; the three Korean keywords as their UTF-8 bytes).
\<close>

definition remote_db :: GithubDB where
  "remote_db = \<lparr>use_local = False\<rparr>"

definition local_db :: GithubDB where
  "local_db = \<lparr>use_local = True\<rparr>"

definition empty_world :: world where
  "empty_world = \<lparr>blob = None, script = [], calls = [], local_file = None, fs_script = []\<rparr>"

definition default_data :: pyval where
  "default_data =
     PDict [(''feeds'',
             PList [PStr ''https://news.google.com/rss/search?q=finance&hl=ko&gl=KR&ceid=KR:ko'']),
            (''keywords'',
             PList [PStr [CHR 0xEC, CHR 0xA3, CHR 0xBC, CHR 0xEC, CHR 0x8B, CHR 0x9D],
                    PStr [CHR 0xEA, CHR 0xB8, CHR 0x88, CHR 0xEB, CHR 0xA6, CHR 0xAC],
                    PStr [CHR 0xEC, CHR 0x82, CHR 0xBC, CHR 0xEC, CHR 0x84, CHR 0xB1, CHR 0xEC, CHR 0xA0, CHR 0x84, CHR 0xEC, CHR 0x9E, CHR 0x90]]),
            (''visitors'', PInt 0),
            (''reports'', PDict []),
            (''collected_news'', PDict [])]"

text \<open>
  A small document, and a store on which another writer commits between the fetch and the
  update of the first attempt of a write.
\<close>

definition visitors_doc :: pyval where
  "visitors_doc = PDict [(''visitors'', PInt 1)]"

definition contended_world :: world where
  "contended_world =
     \<lparr>blob = Some (''{}'', 0), script = [Serve, Commit ''null''], calls = [],
      local_file = Some ''{}'', fs_script = []\<rparr>"

text \<open>
  Stores whose medium answers the update of the first attempt with a conflict and the update
  of the second with status 401; every update with a conflict; the first update with 404 and
  the creation that follows with a conflict.
\<close>

definition denied_world :: world where
  "denied_world = contended_world\<lparr>script := [Serve, Raise 409, Serve, Raise 401]\<rparr>"

definition conflict_world :: world where
  "conflict_world =
     contended_world\<lparr>script := [Serve, Raise 409, Serve, Raise 409, Serve, Raise 409]\<rparr>"

definition vanished_world :: world where
  "vanished_world = contended_world\<lparr>script := [Serve, Raise 404, Raise 409]\<rparr>"

text \<open>
  For \<^verbatim>\<open>fetch_news\<close>: the text line 62 builds for an entry and the article lines 66 to 71 build
  from it at a given reading of the clock.
\<close>

definition text_content :: "entry \<Rightarrow> string" where
  "text_content e = get_or (entry_title e) [] @ '' '' @ get_or (entry_summary e) []"

definition to_article :: "string \<Rightarrow> entry \<Rightarrow> article" where
  "to_article reading e =
     \<lparr>title = get_or (entry_title e) [], link = get_or (entry_link e) [],
      published = get_or (entry_published e) reading, summary = get_or (entry_summary e) []\<rparr>"

text \<open>
  The entries of a feed that are looked at without an exception: those before the first
  entry that has no title, or that passes the keyword test and has no link.
\<close>

definition readable :: "string list \<Rightarrow> entry list \<Rightarrow> entry list" where
  "readable keywords es =
     takeWhile
       (\<lambda>e. entry_title e \<noteq> None
            \<and> (keyword_hit keywords (text_content e) \<longrightarrow> entry_link e \<noteq> None))
       es"

text \<open>
  The entries a feed contributes: none when parsing raised or set the \<^verbatim>\<open>bozo\<close> flag, the
  readable ones otherwise. The selected entries of a feed list are the contributed entries
  that pass the keyword test, in the order of the feeds and of their entries.
\<close>

fun usable :: "string list \<Rightarrow> parsed \<Rightarrow> entry list" where
  "usable keywords ParseRaises = []"
| "usable keywords (Feed bozo es) = (if bozo then [] else readable keywords es)"

definition selected :: "(string \<Rightarrow> parsed) \<Rightarrow> string list \<Rightarrow> string list \<Rightarrow> entry list" where
  "selected parse keywords feeds =
     filter (\<lambda>e. keyword_hit keywords (text_content e))
       (concat (map (\<lambda>url. usable keywords (parse url)) feeds))"

text \<open>
  Three entries, a clock, a parser that flags every feed with \<^verbatim>\<open>bozo\<close>, and a parser for which
  one address is flagged, one raises, and every other is parsed cleanly.
\<close>

definition rates_entry :: entry where
  "rates_entry =
     \<lparr>entry_title = Some ''Rates rise'', entry_link = Some ''http://news/1'',
      entry_summary = None, entry_published = None\<rparr>"

definition sports_entry :: entry where
  "sports_entry =
     \<lparr>entry_title = Some ''Cup final'', entry_link = Some ''http://news/2'',
      entry_summary = Some ''A late goal'', entry_published = Some ''Mon''\<rparr>"

definition bonds_entry :: entry where
  "bonds_entry =
     \<lparr>entry_title = Some ''Bonds fall'', entry_link = Some ''http://news/3'',
      entry_summary = Some ''Yields up'', entry_published = None\<rparr>"

definition wall_clock :: "nat \<Rightarrow> string" where
  "wall_clock k = ''2024-01-01 09:00:0'' @ nat_repr k"

definition bozo_feed :: "string \<Rightarrow> parsed" where
  "bozo_feed url = Feed True [rates_entry]"

definition news_feed :: "string \<Rightarrow> parsed" where
  "news_feed url =
     (if url = ''http://broken'' then Feed True [rates_entry]
      else if url = ''http://down'' then ParseRaises
      else Feed False [rates_entry, sports_entry, bonds_entry])"

section \<open>Properties\<close>

lemma py_range_nonpos: "n \<le> 0 \<Longrightarrow> py_range n = []"
  by (simp add: py_range_def)

text \<open>
  C8. On the remote backend a write with \<open>max_retries \<le> 0\<close> returns false and leaves the
  whole state as it was: no event is consumed, no call is logged, the blob is untouched.
\<close>

theorem write_no_attempts:
  assumes "max_retries \<le> 0" and "\<not> use_local self"
  shows "write_data J self w new_data commit_message max_retries = (False, w)"
  using assms by (simp add: write_data_def py_range_nonpos)

theorem write_no_attempts_witness:
  "(0::int) \<le> 0 \<and> \<not> use_local remote_db \<and>
   write_data py_json remote_db empty_world default_data ''Update'' 0 = (False, empty_world)"
  using write_no_attempts [of 0 remote_db py_json empty_world default_data "''Update''"]
  by (simp add: remote_db_def)

lemma get_contents_raise:
  "script w = Raise s # rest \<Longrightarrow>
   get_contents w =
     (Inl (GithubException s),
      w\<lparr>script := rest, calls := calls w @ [(GetContents, Raised (GithubException s))]\<rparr>)"
  by (simp add: get_contents_def next_event_def land_def fault_def)

text \<open>
  C6. On the remote backend, when the fetch of \<^verbatim>\<open>read_data\<close> is answered with status 401 or
  403, the result is \<^verbatim>\<open>None\<close>. Every exception of the source is a branch of the model, so
  nothing is raised to the caller. The state afterwards differs from the state before in the
  consumed event and the logged fetch only: the blob is the same and neither
  \<^verbatim>\<open>update_file\<close> nor \<^verbatim>\<open>create_file\<close> has been called.
\<close>

theorem read_auth_failure:
  assumes "\<not> use_local self" and "script w = Raise s # rest" and "s = 401 \<or> s = 403"
  shows "read_data J self w dflt =
           (PNone, w\<lparr>script := rest,
                     calls := calls w @ [(GetContents, Raised (GithubException s))]\<rparr>)"
  using assms by (auto simp: read_data_def read_github_def get_contents_raise)

theorem read_auth_failure_witness:
  "read_data py_json remote_db (empty_world\<lparr>script := [Raise 401]\<rparr>) default_data =
     (PNone, empty_world\<lparr>script := [], calls := [(GetContents, Raised (GithubException 401))]\<rparr>)"
  using read_auth_failure
    [of remote_db "empty_world\<lparr>script := [Raise 401]\<rparr>" 401 "[]" py_json default_data]
  by (simp add: remote_db_def empty_world_def)

lemma get_contents_404:
  assumes "fst (get_contents w) = Inl (GithubException 404)"
  shows "blob (snd (get_contents w)) = blob w
       \<and> calls (snd (get_contents w)) = calls w @ [(GetContents, Raised (GithubException 404))]
       \<and> local_file (snd (get_contents w)) = local_file w"
  using assms
  by (auto simp: get_contents_def next_event_def land_def fault_def
           split: list.splits event.splits option.splits)

lemma read_local_missing:
  "use_local self \<Longrightarrow> local_file w = None \<Longrightarrow> \<not> truthy d \<Longrightarrow>
   read_data J self w d = (PDict [], w)"
  by (simp add: read_data_def read_local_def)

lemma read_github_missing:
  "\<not> use_local self \<Longrightarrow> fst (get_contents w) = Inl (GithubException 404) \<Longrightarrow> \<not> truthy d \<Longrightarrow>
   read_data J self w d = (PDict [], snd (get_contents w))"
  by (cases "get_contents w") (simp add: read_data_def read_github_def py_or_def)

text \<open>
  C10. A falsy default (\<^verbatim>\<open>{}\<close>, \<^verbatim>\<open>None\<close>, \<^verbatim>\<open>[]\<close>, \<^verbatim>\<open>0\<close>, ...) on a store without blob: in local
  mode the result is \<^verbatim>\<open>{}\<close> and the state is untouched; in remote mode, when the fetch
  reports 404, the result is \<^verbatim>\<open>{}\<close>, the fetch is the only call made and the blob is as
  before; in both modes the call does exactly what it does without a default.
\<close>

theorem read_falsy_default:
  assumes "\<not> truthy dflt"
  shows "(use_local self \<and> local_file w = None \<longrightarrow>
            read_data J self w dflt = (PDict [], w))
       \<and> (\<not> use_local self \<and> fst (get_contents w) = Inl (GithubException 404) \<longrightarrow>
            read_data J self w dflt = (PDict [], snd (get_contents w))
          \<and> blob (snd (get_contents w)) = blob w
          \<and> calls (snd (get_contents w)) =
              calls w @ [(GetContents, Raised (GithubException 404))])
       \<and> ((use_local self \<and> local_file w = None)
            \<or> (\<not> use_local self \<and> fst (get_contents w) = Inl (GithubException 404)) \<longrightarrow>
            read_data J self w dflt = read_data J self w PNone)"
  using assms read_local_missing [of self w dflt J] read_local_missing [of self w PNone J]
    read_github_missing [of self w dflt J] read_github_missing [of self w PNone J]
    get_contents_404 [of w]
  by auto

theorem read_falsy_default_witness:
  "\<not> truthy (PDict [])
   \<and> read_data py_json local_db empty_world (PDict []) = (PDict [], empty_world)
   \<and> fst (get_contents empty_world) = Inl (GithubException 404)
   \<and> read_data py_json remote_db empty_world (PDict []) =
       (PDict [], empty_world\<lparr>calls := [(GetContents, Raised (GithubException 404))]\<rparr>)"
  using read_falsy_default [of "PDict []" local_db empty_world py_json]
        read_falsy_default [of "PDict []" remote_db empty_world py_json]
  by (simp add: local_db_def remote_db_def empty_world_def get_contents_def next_event_def
        land_def fault_def)

text \<open>
  C3, as stated: without a default and without a blob the remote backend returns
  \<^verbatim>\<open>None\<close>. On the empty store the fetch reports 404 and line 77 returns
  \<^verbatim>\<open>default_data or {}\<close>, the empty dictionary.
\<close>

theorem read_missing_remote_counterexample:
  "fst (get_contents empty_world) = Inl (GithubException 404)
   \<and> fst (read_data py_json remote_db empty_world PNone) = PDict []
   \<and> fst (read_data py_json remote_db empty_world PNone) \<noteq> PNone"
  by (simp add: read_data_def read_github_def remote_db_def empty_world_def get_contents_def
        next_event_def land_def fault_def py_or_def)

text \<open>
  C3, amended: when the blob does not exist and no default is given, \<^verbatim>\<open>read_data\<close> returns
  the empty dictionary on both backends.
\<close>

theorem read_missing_no_default:
  "(use_local self \<and> local_file w = None \<longrightarrow>
      fst (read_data J self w PNone) = PDict [])
   \<and> (\<not> use_local self \<and> fst (get_contents w) = Inl (GithubException 404) \<longrightarrow>
      fst (read_data J self w PNone) = PDict [])"
  using read_local_missing [of self w PNone J] read_github_missing [of self w PNone J]
  by simp

theorem read_missing_no_default_witness:
  "use_local local_db \<and> local_file empty_world = None
   \<and> fst (read_data py_json local_db empty_world PNone) = PDict []
   \<and> \<not> use_local remote_db \<and> fst (get_contents empty_world) = Inl (GithubException 404)
   \<and> fst (read_data py_json remote_db empty_world PNone) = PDict []"
  using read_missing_no_default [of local_db empty_world py_json]
        read_missing_no_default [of remote_db empty_world py_json]
  by (simp add: local_db_def remote_db_def empty_world_def get_contents_def next_event_def
        land_def fault_def)

lemma read_local_failure:
  "use_local self \<Longrightarrow> local_file w = Some content \<Longrightarrow>
   fst (next_fs_event w) \<noteq> FsOk \<or> decode J content = None \<Longrightarrow>
   read_data J self w d = (py_or d (PDict []), snd (next_fs_event w))"
  by (cases "next_fs_event w")
     (auto simp: read_data_def read_local_def split: fs_event.splits)

lemma py_or_not_None: "py_or d (PDict []) \<noteq> PNone"
  by (cases d) (simp_all add: py_or_def)

lemma decode_bad: "decode py_json ''{bad'' = None"
proof -
  have "json_decode ''{bad'' = None" by code_simp
  then show ?thesis by (simp add: py_json_def)
qed

lemma decode_null: "decode py_json ''null'' = Some PNone"
proof -
  have "json_decode ''null'' = Some PNone" by code_simp
  then show ?thesis by (simp add: py_json_def)
qed

text \<open>
  C4, as stated: on either backend a parse failure makes \<^verbatim>\<open>read_data\<close> return \<^verbatim>\<open>None\<close>. In
  local mode, with a file that holds the text \<^verbatim>\<open>{bad\<close>, the parser raises and the handler of
  lines 58 to 60 returns \<^verbatim>\<open>default_data or {}\<close>: the empty dictionary without a default, the
  default with one.
\<close>

theorem read_parse_failure_local_counterexample:
  "decode py_json ''{bad'' = None
   \<and> fst (read_data py_json local_db (empty_world\<lparr>local_file := Some ''{bad''\<rparr>) PNone) = PDict []
   \<and> fst (read_data py_json local_db (empty_world\<lparr>local_file := Some ''{bad''\<rparr>) default_data)
       = default_data"
  using decode_bad
  by (simp add: read_data_def read_local_def local_db_def empty_world_def next_fs_event_def
        py_or_def default_data_def)

text \<open>
  C4, amended: on an existing blob, a parse failure or a transport failure makes
  \<^verbatim>\<open>read_data\<close> return \<^verbatim>\<open>None\<close> on the remote backend (the fetch raises something other than
  a 404 \<^verbatim>\<open>GithubException\<close>, or the text fetched does not parse); on the local backend (the
  file cannot be opened or read, or its text does not parse) it returns
  \<^verbatim>\<open>default_data or {}\<close>, which is never \<^verbatim>\<open>None\<close>.
\<close>

theorem read_failure:
  "(\<not> use_local self
      \<and> ((\<exists>x. fst (get_contents w) = Inl x \<and> x \<noteq> GithubException 404)
         \<or> (\<exists>content sha. fst (get_contents w) = Inr (content, sha) \<and> decode J content = None)) \<longrightarrow>
      read_data J self w dflt = (PNone, snd (get_contents w)))
   \<and> (use_local self \<and> local_file w = Some content'
      \<and> (fst (next_fs_event w) \<noteq> FsOk \<or> decode J content' = None) \<longrightarrow>
      read_data J self w dflt = (py_or dflt (PDict []), snd (next_fs_event w))
      \<and> py_or dflt (PDict []) \<noteq> PNone)"
proof -
  have "read_data J self w dflt = (PNone, snd (get_contents w))"
    if "\<not> use_local self" "fst (get_contents w) = Inl x" "x \<noteq> GithubException 404" for x
    using that by (cases "get_contents w"; cases x) (simp_all add: read_data_def read_github_def)
  moreover have "read_data J self w dflt = (PNone, snd (get_contents w))"
    if "\<not> use_local self" "fst (get_contents w) = Inr (content, sha)" "decode J content = None"
    for content sha
    using that by (cases "get_contents w") (simp add: read_data_def read_github_def)
  ultimately show ?thesis
    using read_local_failure [of self w content' J dflt] py_or_not_None [of dflt] by blast
qed

theorem read_failure_witness:
  "fst (get_contents (empty_world\<lparr>script := [Crash]\<rparr>)) = Inl OtherException
   \<and> fst (read_data py_json remote_db (empty_world\<lparr>script := [Crash]\<rparr>) default_data) = PNone
   \<and> fst (get_contents (empty_world\<lparr>blob := Some (''{bad'', 0)\<rparr>)) = Inr (''{bad'', 0)
   \<and> fst (read_data py_json remote_db (empty_world\<lparr>blob := Some (''{bad'', 0)\<rparr>) default_data)
       = PNone
   \<and> fst (read_data py_json local_db (empty_world\<lparr>local_file := Some ''{bad''\<rparr>) PNone)
       = PDict []"
  using read_failure [of remote_db "empty_world\<lparr>script := [Crash]\<rparr>" py_json default_data]
    read_failure [of remote_db "empty_world\<lparr>blob := Some (''{bad'', 0)\<rparr>" py_json default_data]
    read_failure [of local_db "empty_world\<lparr>local_file := Some ''{bad''\<rparr>" py_json PNone "''{bad''"]
    decode_bad
  by (simp add: remote_db_def local_db_def empty_world_def get_contents_def next_event_def
        next_fs_event_def land_def fault_def py_or_def)

text \<open>
  C9, as stated: in local mode \<^verbatim>\<open>read_data\<close> never returns \<^verbatim>\<open>None\<close>. A file that holds the
  JSON text \<^verbatim>\<open>null\<close> exists and parses, and line 51 returns what \<^verbatim>\<open>json.load\<close> returns:
  \<^verbatim>\<open>None\<close>, with or without a default.
\<close>

theorem read_local_null_counterexample:
  "decode py_json ''null'' = Some PNone
   \<and> fst (read_data py_json local_db (empty_world\<lparr>local_file := Some ''null''\<rparr>) PNone) = PNone
   \<and> fst (read_data py_json local_db (empty_world\<lparr>local_file := Some ''null''\<rparr>) default_data)
       = PNone"
  using decode_null
  by (simp add: read_data_def read_local_def local_db_def empty_world_def next_fs_event_def)

text \<open>
  C9, amended: in local mode a missing file yields \<^verbatim>\<open>{}\<close> without a (truthy) default and the
  default with one; a file that cannot be opened or read, or whose text does not parse,
  yields \<^verbatim>\<open>default_data or {}\<close>; and the result is \<^verbatim>\<open>None\<close> only when the file exists, is read
  without error and its text parses to \<^verbatim>\<open>None\<close>.
\<close>

theorem read_local_result:
  assumes "use_local self"
  shows "(local_file w = None \<and> \<not> truthy dflt \<longrightarrow> fst (read_data J self w dflt) = PDict [])
       \<and> (local_file w = None \<and> truthy dflt \<longrightarrow> fst (read_data J self w dflt) = dflt)
       \<and> (local_file w = Some content
            \<and> (fst (next_fs_event w) \<noteq> FsOk \<or> decode J content = None) \<longrightarrow>
            fst (read_data J self w dflt) = py_or dflt (PDict []))
       \<and> (fst (read_data J self w dflt) = PNone \<longleftrightarrow>
            (\<exists>c. local_file w = Some c \<and> fst (next_fs_event w) = FsOk
                 \<and> decode J c = Some PNone))"
proof -
  have a: "local_file w = None \<Longrightarrow> \<not> truthy dflt \<Longrightarrow> fst (read_data J self w dflt) = PDict []"
    using assms by (simp add: read_local_missing)
  have b: "local_file w = None \<Longrightarrow> truthy dflt \<Longrightarrow> fst (read_data J self w dflt) = dflt"
    using assms by (simp add: read_data_def read_local_def)
  have c: "fst (read_data J self w dflt) = py_or dflt (PDict [])"
    if "local_file w = Some c" "fst (next_fs_event w) \<noteq> FsOk \<or> decode J c = None" for c
    using assms that by (simp add: read_local_failure)
  have d: "fst (read_data J self w dflt) = v"
    if "local_file w = Some c" "fst (next_fs_event w) = FsOk" "decode J c = Some v" for c v
    using assms that
    by (cases "next_fs_event w") (simp add: read_data_def read_local_def)
  have e: "fst (read_data J self w dflt) = PNone \<longleftrightarrow>
            (\<exists>c. local_file w = Some c \<and> fst (next_fs_event w) = FsOk \<and> decode J c = Some PNone)"
  proof (cases "local_file w")
    case None
    then show ?thesis using a b by (cases "truthy dflt") auto
  next
    case (Some c)
    show ?thesis
    proof (cases "fst (next_fs_event w) = FsOk")
      case False
      then show ?thesis using c [OF Some] py_or_not_None [of dflt] by simp
    next
      case True
      show ?thesis
      proof (cases "decode J c")
        case None
        then show ?thesis using c [OF Some] Some py_or_not_None [of dflt] by simp
      next
        case (Some v)
        then show ?thesis using d [OF \<open>local_file w = Some c\<close> True Some] \<open>local_file w = Some c\<close> True
          by auto
      qed
    qed
  qed
  show ?thesis using a b c [of content] e by blast
qed

theorem read_local_result_witness:
  "use_local local_db
   \<and> fst (read_data py_json local_db empty_world PNone) = PDict []
   \<and> truthy default_data
   \<and> fst (read_data py_json local_db empty_world default_data) = default_data
   \<and> decode py_json ''{bad'' = None
   \<and> fst (read_data py_json local_db (empty_world\<lparr>local_file := Some ''{bad''\<rparr>) default_data)
       = default_data
   \<and> fst (read_data py_json local_db
        (empty_world\<lparr>local_file := Some ''{}'', fs_script := [FsOpenError]\<rparr>) PNone) = PDict []
   \<and> fst (read_data py_json local_db (empty_world\<lparr>local_file := Some ''null''\<rparr>) default_data)
       = PNone"
  using read_local_result [of local_db empty_world PNone py_json]
    read_local_result [of local_db empty_world default_data py_json]
    read_local_result [of local_db "empty_world\<lparr>local_file := Some ''{bad''\<rparr>" default_data
      py_json "''{bad''"]
    read_local_result [of local_db
      "empty_world\<lparr>local_file := Some ''{}'', fs_script := [FsOpenError]\<rparr>" PNone py_json "''{}''"]
    read_local_result [of local_db "empty_world\<lparr>local_file := Some ''null''\<rparr>" default_data
      py_json]
    decode_bad decode_null
  by (simp add: local_db_def empty_world_def next_fs_event_def py_or_def default_data_def)

lemma next_event_frame:
  "next_event w = (e, w1) \<Longrightarrow>
   calls w1 = calls w \<and> blob w1 = blob w \<and> local_file w1 = local_file w
   \<and> fs_script w1 = fs_script w \<and> script w1 = tl (script w)
   \<and> (e \<noteq> Serve \<longrightarrow> script w \<noteq> [] \<and> e = hd (script w))"
  by (auto simp: next_event_def split: list.splits)

lemma get_contents_log:
  "get_contents w = (r, w1) \<Longrightarrow>
   calls w1 = calls w @ [(GetContents, case r of Inl x \<Rightarrow> Raised x | Inr (c, t) \<Rightarrow> Fetched c t)]"
  by (auto simp: get_contents_def Let_def split: prod.splits dest: next_event_frame)

lemma update_file_log:
  "update_file m b s w = (r, w1) \<Longrightarrow>
   calls w1 = calls w @ [(UpdateFile m b s, case r of Inl x \<Rightarrow> Raised x | Inr u \<Rightarrow> Done)]"
  by (auto simp: update_file_def Let_def split: prod.splits dest: next_event_frame)

lemma create_file_log:
  "create_file m b w = (r, w1) \<Longrightarrow>
   calls w1 = calls w @ [(CreateFile m b, case r of Inl x \<Rightarrow> Raised x | Inr u \<Rightarrow> Done)]"
  by (auto simp: create_file_def Let_def split: prod.splits dest: next_event_frame)

lemma get_contents_blob:
  "get_contents w = (Inr (c, t), w1) \<Longrightarrow> blob w1 = Some (c, t)"
  by (auto simp: get_contents_def Let_def split: prod.splits option.splits)

lemma update_file_blob:
  "update_file m b s w = (Inr u, w1) \<Longrightarrow> \<exists>tok. blob w1 = Some (b, tok)"
  by (auto simp: update_file_def Let_def split: prod.splits option.splits if_splits)

lemma create_file_blob:
  "create_file m b w = (Inr u, w1) \<Longrightarrow> \<exists>tok. blob w1 = Some (b, tok)"
  by (auto simp: create_file_def Let_def split: prod.splits option.splits if_splits)

lemma dumps_Inr: "dumps J v = Inr s \<longleftrightarrow> encode J v = Encoded s"
  by (simp add: dumps_def split: encoded.splits)

lemma update_or_create_success:
  assumes "update_or_create J v m w = (Inr u, w')"
  shows "\<exists>s tok. encode J v = Encoded s \<and> blob w' = Some (s, tok)"
  using assms
  by (auto simp: update_or_create_def on_github_exception_def dumps_Inr
      split: prod.splits sum.splits pyexc.splits if_splits
      dest: update_file_blob create_file_blob)

lemma write_github_success:
  "write_github J v m n as w = (True, w') \<Longrightarrow>
   \<exists>s tok. encode J v = Encoded s \<and> blob w' = Some (s, tok)"
proof (induction as arbitrary: w)
  case Nil
  then show ?case by simp
next
  case (Cons a as)
  then show ?case
    by (auto split: prod.splits sum.splits pyexc.splits if_splits dest: update_or_create_success)
qed

lemma write_local_success:
  assumes "write_local J v w = (True, w')"
  shows "\<exists>s. encode J v = Encoded s \<and> local_file w' = Some s \<and> fs_script w' = tl (fs_script w)"
  using assms
  by (auto simp: write_local_def next_fs_event_def
      split: prod.splits list.splits fs_event.splits encoded.splits)

lemma read_local_ok:
  "use_local self \<Longrightarrow> local_file w = Some s \<Longrightarrow> fst (next_fs_event w) = FsOk \<Longrightarrow>
   decode J s = Some v \<Longrightarrow> fst (read_data J self w d) = v"
  by (cases "next_fs_event w") (simp add: read_data_def read_local_def)

lemma get_contents_served:
  "fst (next_event w) = Serve \<Longrightarrow> blob w = Some ct \<Longrightarrow> fst (get_contents w) = Inr ct"
  by (cases "next_event w")
     (auto simp: get_contents_def Let_def land_def fault_def dest: next_event_frame)

lemma read_github_ok:
  assumes "\<not> use_local self" and "blob w = Some (s, tok)" and "fst (next_event w) = Serve"
    and "decode J s = Some v"
  shows "fst (read_data J self w d) = v"
  using assms get_contents_served [of w "(s, tok)"]
  by (cases "get_contents w") (simp add: read_data_def read_github_def)

text \<open>
  C2. On either backend: when \<^verbatim>\<open>write_data\<close> has returned true for a document that the JSON
  library reads back, and the next access to the medium is served with no fault and no
  commit of another writer in between, \<^verbatim>\<open>read_data\<close> returns that document, whatever default
  it is given.
\<close>

theorem write_then_read:
  assumes "write_data J self w v commit_message max_retries = (True, w')"
    and "reads_back J v" and "undisturbed self w'"
  shows "fst (read_data J self w' dflt) = v"
proof (cases "use_local self")
  case True
  with assms(1) obtain s where s: "encode J v = Encoded s" "local_file w' = Some s"
    using write_local_success [of J v w w'] by (auto simp: write_data_def)
  from assms(2) s(1) have "decode J s = Some v" by (simp add: reads_back_def)
  with True s(2) assms(3) show ?thesis
    by (simp add: undisturbed_def read_local_ok)
next
  case False
  with assms(1) obtain s tok where s: "encode J v = Encoded s" "blob w' = Some (s, tok)"
    using write_github_success [of J v commit_message max_retries "py_range max_retries" w w']
    by (auto simp: write_data_def)
  from assms(2) s(1) have "decode J s = Some v" by (simp add: reads_back_def)
  with False s(2) assms(3) show ?thesis
    by (simp add: undisturbed_def read_github_ok)
qed

theorem write_then_read_witness:
  "fst (write_data py_json remote_db contended_world visitors_doc ''Increment visitor count'' 3)
   \<and> reads_back py_json visitors_doc
   \<and> undisturbed remote_db
        (snd (write_data py_json remote_db contended_world visitors_doc
                ''Increment visitor count'' 3))
   \<and> fst (read_data py_json remote_db
        (snd (write_data py_json remote_db contended_world visitors_doc
                ''Increment visitor count'' 3)) PNone) = visitors_doc
   \<and> fst (write_data py_json local_db contended_world visitors_doc ''Increment visitor count'' 3)
   \<and> undisturbed local_db
        (snd (write_data py_json local_db contended_world visitors_doc
                ''Increment visitor count'' 3))
   \<and> fst (read_data py_json local_db
        (snd (write_data py_json local_db contended_world visitors_doc
                ''Increment visitor count'' 3)) PNone) = visitors_doc"
proof -
  let ?r = "write_data py_json remote_db contended_world visitors_doc ''Increment visitor count'' 3"
  let ?l = "write_data py_json local_db contended_world visitors_doc ''Increment visitor count'' 3"
  have r1: "fst ?r" by code_simp
  have r2: "undisturbed remote_db (snd ?r)" by code_simp
  have l1: "fst ?l" by code_simp
  have l2: "undisturbed local_db (snd ?l)" by code_simp
  have b: "reads_back py_json visitors_doc" by code_simp
  from r1 have r: "?r = (True, snd ?r)" by (cases ?r) simp
  from l1 have l: "?l = (True, snd ?l)" by (cases ?l) simp
  show ?thesis
    using write_then_read [OF r b r2, of PNone] write_then_read [OF l b l2, of PNone] r1 r2 l1 l2 b
    by simp
qed

lemma replay_append: "replay (es @ fs) b = replay fs (replay es b)"
  by (simp add: replay_def)

lemma next_event_replay:
  "next_event w = (e, w1) \<Longrightarrow> \<exists>es. script w = es @ script w1 \<and> land e (blob w) = replay es (blob w)"
proof (cases "script w")
  case Nil
  assume "next_event w = (e, w1)"
  with Nil have "e = Serve" "script w1 = []" by (auto simp: next_event_def)
  with Nil show ?thesis by (intro exI [of _ "[]"]) (simp add: replay_def land_def)
next
  case (Cons a as)
  assume "next_event w = (e, w1)"
  with Cons have "e = a" "script w1 = as" by (auto simp: next_event_def)
  with Cons show ?thesis by (intro exI [of _ "[a]"]) (simp add: replay_def)
qed

lemma get_contents_replay:
  assumes "get_contents w = (r, w1)"
  shows "\<exists>es. script w = es @ script w1 \<and> blob w1 = replay es (blob w)"
proof -
  obtain e w0 where e: "next_event w = (e, w0)" by (cases "next_event w")
  with assms have "script w1 = script w0" "blob w1 = land e (blob w)"
    by (auto simp: get_contents_def Let_def dest: next_event_frame)
  with next_event_replay [OF e] show ?thesis by simp
qed

lemma update_file_replay:
  assumes "update_file m b s w = (Inl x, w1)"
  shows "\<exists>es. script w = es @ script w1 \<and> blob w1 = replay es (blob w)"
proof -
  obtain e w0 where e: "next_event w = (e, w0)" by (cases "next_event w")
  with assms have "script w1 = script w0" "blob w1 = land e (blob w)"
    by (auto simp: update_file_def Let_def dest: next_event_frame
        split: option.splits prod.splits if_splits)
  with next_event_replay [OF e] show ?thesis by simp
qed

lemma create_file_replay:
  assumes "create_file m b w = (Inl x, w1)"
  shows "\<exists>es. script w = es @ script w1 \<and> blob w1 = replay es (blob w)"
proof -
  obtain e w0 where e: "next_event w = (e, w0)" by (cases "next_event w")
  with assms have "script w1 = script w0" "blob w1 = land e (blob w)"
    by (auto simp: create_file_def Let_def dest: next_event_frame
        split: option.splits prod.splits if_splits)
  with next_event_replay [OF e] show ?thesis by simp
qed

lemma replay_trans:
  assumes "\<exists>es. script w = es @ script w1 \<and> blob w1 = replay es (blob w)"
    and "\<exists>es. script w1 = es @ script w2 \<and> blob w2 = replay es (blob w1)"
  shows "\<exists>es. script w = es @ script w2 \<and> blob w2 = replay es (blob w)"
proof -
  from assms obtain es fs where "script w = es @ script w1" "blob w1 = replay es (blob w)"
    "script w1 = fs @ script w2" "blob w2 = replay fs (blob w1)" by blast
  then show ?thesis by (intro exI [of _ "es @ fs"]) (simp add: replay_append)
qed

lemma replay_refl: "\<exists>es. script w = es @ script w \<and> blob w = replay es (blob w)"
  by (intro exI [of _ "[]"]) (simp add: replay_def)

lemma on_github_exception_replay:
  assumes "on_github_exception J v m e w = (Inl x, w1)"
  shows "\<exists>es. script w = es @ script w1 \<and> blob w1 = replay es (blob w)"
  using assms replay_refl [of w]
  by (auto simp: on_github_exception_def split: pyexc.splits if_splits sum.splits
      dest: create_file_replay)

lemma update_or_create_replay:
  assumes "update_or_create J v m w = (Inl x, w')"
  shows "\<exists>es. script w = es @ script w' \<and> blob w' = replay es (blob w)"
proof (cases "get_contents w")
  case (Pair r w1)
  note g = get_contents_replay [OF Pair]
  show ?thesis
  proof (cases r)
    case (Inl e)
    with assms Pair have "on_github_exception J v m e w1 = (Inl x, w')"
      by (simp add: update_or_create_def)
    from replay_trans [OF g on_github_exception_replay [OF this]] show ?thesis .
  next
    case (Inr ct)
    obtain c sha where ct: "ct = (c, sha)" by (cases ct)
    show ?thesis
    proof (cases "dumps J v")
      case (Inl y)
      with assms Pair Inr ct have "w' = w1" by (simp add: update_or_create_def)
      with g show ?thesis by simp
    next
      case body: (Inr body)
      obtain r2 w2 where u: "update_file m body sha w1 = (r2, w2)"
        by (cases "update_file m body sha w1")
      show ?thesis
      proof (cases r2)
        case (Inl e)
        with assms Pair Inr ct body u have h: "on_github_exception J v m e w2 = (Inl x, w')"
          by (simp add: update_or_create_def)
        from u Inl have "update_file m body sha w1 = (Inl e, w2)" by simp
        from replay_trans [OF replay_trans [OF g update_file_replay [OF this]]
            on_github_exception_replay [OF h]]
        show ?thesis .
      next
        case (Inr unit)
        with assms Pair \<open>r = Inr ct\<close> ct body u show ?thesis
          by (simp add: update_or_create_def)
      qed
    qed
  qed
qed

lemma write_github_replay:
  "write_github J v m n as w = (False, w') \<Longrightarrow>
   \<exists>es. script w = es @ script w' \<and> blob w' = replay es (blob w)"
proof (induction as arbitrary: w)
  case Nil
  then show ?case using replay_refl [of w] by simp
next
  case (Cons a as)
  obtain r w1 where a: "update_or_create J v m w = (r, w1)"
    by (cases "update_or_create J v m w")
  show ?case
  proof (cases r)
    case (Inr u)
    with Cons.prems a show ?thesis by simp
  next
    case (Inl x)
    with a have step: "\<exists>es. script w = es @ script w1 \<and> blob w1 = replay es (blob w)"
      by (simp add: update_or_create_replay)
    show ?thesis
    proof (cases "write_github J v m n (a # as) w = write_github J v m n as w1")
      case True
      with Cons.prems have "write_github J v m n as w1 = (False, w')" by simp
      from replay_trans [OF step Cons.IH [OF this]] show ?thesis .
    next
      case False
      with Cons.prems a Inl have "w' = w1"
        by (auto split: pyexc.splits if_splits)
      with step show ?thesis by simp
    qed
  qed
qed

lemma replay_no_commit: "\<forall>c. Commit c \<notin> set es \<Longrightarrow> replay es b = b"
proof (induction es arbitrary: b)
  case Nil
  then show ?case by (simp add: replay_def)
next
  case (Cons e es)
  then have "land e b = b" by (cases e) (auto simp: land_def)
  with Cons show ?case by (simp add: replay_def)
qed

lemma write_local_open_error:
  "fst (next_fs_event w) = FsOpenError \<Longrightarrow>
   write_local J v w = (False, snd (next_fs_event w)) \<and>
   local_file (snd (next_fs_event w)) = local_file w"
  by (cases "next_fs_event w")
     (auto simp: write_local_def next_fs_event_def split: list.splits)

text \<open>
  C5, as stated: on both backends a write that returns false leaves the persisted state as
  it was. In local mode \<^verbatim>\<open>open(..., 'w')\<close> has emptied the file before \<^verbatim>\<open>json.dump\<close> writes:
  when writing fails after five characters (a full disk), \<^verbatim>\<open>write_data\<close> returns false and
  the file, which held \<^verbatim>\<open>{}\<close>, holds the first five characters of the new text.
\<close>

theorem failed_write_local_counterexample:
  "local_file (contended_world\<lparr>fs_script := [FsIOError 5]\<rparr>) = Some ''{}''
   \<and> \<not> fst (write_data py_json local_db (contended_world\<lparr>fs_script := [FsIOError 5]\<rparr>)
             visitors_doc ''Increment visitor count'' 3)
   \<and> local_file (snd (write_data py_json local_db (contended_world\<lparr>fs_script := [FsIOError 5]\<rparr>)
             visitors_doc ''Increment visitor count'' 3))
       = Some [CHR ''{'', CHR 0x0A, CHR '' '', CHR '' '', CHR '' '']"
  by code_simp

text \<open>
  C5, amended: on the remote backend a write that returns false has not changed the blob:
  the blob afterwards is what the commits of the other writers among the consumed events
  made of it, and it is the blob from before when no other writer commits. On the local
  backend a write that fails to open the file leaves the file as it was.
\<close>

theorem failed_write_keeps_blob:
  assumes "write_data J self w v commit_message max_retries = (False, w')"
  shows "(\<not> use_local self \<longrightarrow>
            (\<exists>es. script w = es @ script w' \<and> blob w' = replay es (blob w)))
       \<and> (\<not> use_local self \<and> no_commit w \<longrightarrow> blob w' = blob w)
       \<and> (use_local self \<and> fst (next_fs_event w) = FsOpenError \<longrightarrow>
            local_file w' = local_file w)"
proof -
  have a: "\<exists>es. script w = es @ script w' \<and> blob w' = replay es (blob w)" if "\<not> use_local self"
    using assms that by (simp add: write_data_def write_github_replay)
  have b: "blob w' = blob w" if "\<not> use_local self" "no_commit w"
  proof -
    from a [OF that(1)] obtain es where es: "script w = es @ script w'"
      "blob w' = replay es (blob w)" by blast
    from es(1) that(2) have "\<forall>c. Commit c \<notin> set es" by (auto simp: no_commit_def)
    with es(2) show ?thesis by (simp add: replay_no_commit)
  qed
  have c: "local_file w' = local_file w"
    if "use_local self" "fst (next_fs_event w) = FsOpenError"
    using assms that write_local_open_error [of w J v] by (simp add: write_data_def)
  from a b c show ?thesis by blast
qed

theorem failed_write_keeps_blob_witness:
  "\<not> use_local remote_db
   \<and> no_commit (contended_world\<lparr>script := [Serve, Raise 409, Serve, Raise 401]\<rparr>)
   \<and> \<not> fst (write_data py_json remote_db
            (contended_world\<lparr>script := [Serve, Raise 409, Serve, Raise 401]\<rparr>)
            visitors_doc ''Increment visitor count'' 3)
   \<and> blob (snd (write_data py_json remote_db
            (contended_world\<lparr>script := [Serve, Raise 409, Serve, Raise 401]\<rparr>)
            visitors_doc ''Increment visitor count'' 3)) = Some (''{}'', 0)
   \<and> use_local local_db
   \<and> fst (next_fs_event (contended_world\<lparr>fs_script := [FsOpenError]\<rparr>)) = FsOpenError
   \<and> \<not> fst (write_data py_json local_db (contended_world\<lparr>fs_script := [FsOpenError]\<rparr>)
            visitors_doc ''Increment visitor count'' 3)
   \<and> local_file (snd (write_data py_json local_db (contended_world\<lparr>fs_script := [FsOpenError]\<rparr>)
            visitors_doc ''Increment visitor count'' 3)) = Some ''{}''"
proof -
  let ?wr = "contended_world\<lparr>script := [Serve, Raise 409, Serve, Raise 401]\<rparr>"
  let ?wl = "contended_world\<lparr>fs_script := [FsOpenError]\<rparr>"
  let ?r = "write_data py_json remote_db ?wr visitors_doc ''Increment visitor count'' 3"
  let ?l = "write_data py_json local_db ?wl visitors_doc ''Increment visitor count'' 3"
  have r1: "\<not> fst ?r" by code_simp
  have l1: "\<not> fst ?l" by code_simp
  have nc: "no_commit ?wr" by (simp add: no_commit_def contended_world_def)
  have ev: "fst (next_fs_event ?wl) = FsOpenError"
    by (simp add: next_fs_event_def contended_world_def)
  have b0: "blob ?wr = Some (''{}'', 0)" "local_file ?wl = Some ''{}''"
    by (simp_all add: contended_world_def)
  from r1 have r: "?r = (False, snd ?r)" by (cases ?r) simp
  from l1 have l: "?l = (False, snd ?l)" by (cases ?l) simp
  show ?thesis
    using failed_write_keeps_blob [OF r] failed_write_keeps_blob [OF l] r1 l1 nc ev b0
    by (simp add: remote_db_def local_db_def)
qed

lemma on_github_exception_trace:
  assumes "on_github_exception J v m e w = (r, w')"
  shows "(e \<noteq> GithubException 404 \<and> r = Inl e \<and> calls w' = calls w)
       \<or> (e = GithubException 404 \<and> (\<exists>y. dumps J v = Inl y \<and> r = Inl y) \<and> calls w' = calls w)
       \<or> (e = GithubException 404
           \<and> (\<exists>body. dumps J v = Inr body
                  \<and> calls w' = calls w @ [(CreateFile m body, outcome r)]))"
proof (cases "e = GithubException 404")
  case False
  with assms show ?thesis
    by (auto simp: on_github_exception_def split: pyexc.splits)
next
  case True
  show ?thesis
  proof (cases "dumps J v")
    case (Inl y)
    with assms True show ?thesis by (simp add: on_github_exception_def)
  next
    case (Inr body)
    with assms True have "create_file m body w = (r, w')"
      by (simp add: on_github_exception_def)
    from create_file_log [OF this] Inr True show ?thesis by (simp add: outcome_def)
  qed
qed

lemma update_or_create_trace:
  assumes "update_or_create J v m w = (r, w')"
  shows "\<exists>a. calls w' = calls w @ a \<and> attempt_trace J v m r a"
proof (cases "get_contents w")
  case (Pair r1 w1)
  note g = get_contents_log [OF Pair]
  show ?thesis
  proof (cases r1)
    case (Inl e)
    with assms Pair have h: "on_github_exception J v m e w1 = (r, w')"
      by (simp add: update_or_create_def)
    from on_github_exception_trace [OF h] g Inl show ?thesis
      by (auto intro: attempt_trace.intros)
  next
    case (Inr ct)
    obtain c sha where ct: "ct = (c, sha)" by (cases ct)
    show ?thesis
    proof (cases "dumps J v")
      case (Inl y)
      with assms Pair Inr ct have "r = Inl y" "w' = w1" by (simp_all add: update_or_create_def)
      with g Inr ct Inl show ?thesis by (auto intro: attempt_trace.intros)
    next
      case body: (Inr body)
      obtain r2 w2 where u: "update_file m body sha w1 = (r2, w2)"
        by (cases "update_file m body sha w1")
      note ul = update_file_log [OF u]
      show ?thesis
      proof (cases r2)
        case (Inl e)
        with assms Pair Inr ct body u have h: "on_github_exception J v m e w2 = (r, w')"
          by (simp add: update_or_create_def)
        from on_github_exception_trace [OF h] g ul Inl \<open>r1 = Inr ct\<close> ct body show ?thesis
          by (auto intro: attempt_trace.intros)
      next
        case (Inr un)
        with assms Pair \<open>r1 = Inr ct\<close> ct body u have "r = Inr ()" "w' = w2"
          by (simp_all add: update_or_create_def)
        with g ul Inr \<open>r1 = Inr ct\<close> ct body show ?thesis
          by (auto intro: attempt_trace.intros)
      qed
    qed
  qed
qed

lemma conflict_not_final: "snd x = Raised (GithubException 409) \<Longrightarrow> \<not> non_conflict_failure x"
  by (cases x; cases "fst x") auto

lemma dumps_Inl: "dumps J v = Inl y \<Longrightarrow> y = OtherException"
  by (auto simp: dumps_def split: encoded.splits)

lemma attempt_trace_all:
  assumes "attempt_trace J v m r a"
  shows "a \<noteq> [] \<and> fst (hd a) = GetContents
       \<and> filter (\<lambda>x. fst x = GetContents) a = [hd a]
       \<and> successively follows a
       \<and> (r = Inr () \<longleftrightarrow> snd (last a) = Done)
       \<and> (\<forall>s. r = Inl (GithubException s) \<longrightarrow> snd (last a) = Raised (GithubException s))
       \<and> ((\<exists>y. dumps J v = Inl y) \<longrightarrow> r \<noteq> Inr () \<and> (\<forall>x \<in> set a. fst x = GetContents))"
  using assms
proof (cases rule: attempt_trace.cases)
  case (fetch_failed e)
  then show ?thesis by auto
next
  case (absent_not_serialised y)
  then show ?thesis by (auto dest: dumps_Inl)
next
  case (absent_create body)
  then show ?thesis by (auto simp: follows_def outcome_def split: sum.splits)
next
  case (found_not_serialised y c sha)
  then show ?thesis by (auto dest: dumps_Inl)
next
  case (updated body c sha)
  then show ?thesis by (auto simp: follows_def)
next
  case (update_failed body e c sha)
  then show ?thesis by (auto simp: follows_def)
next
  case (vanished_create body c sha)
  then show ?thesis by (auto simp: follows_def outcome_def split: sum.splits)
qed

lemma attempt_trace_props:
  assumes "attempt_trace J v m r a"
  shows "a \<noteq> []" and "fst (hd a) = GetContents"
    and "filter (\<lambda>x. fst x = GetContents) a = [hd a]"
    and "successively follows a"
    and "r = Inr () \<longleftrightarrow> snd (last a) = Done"
    and "\<forall>s. r = Inl (GithubException s) \<longrightarrow> snd (last a) = Raised (GithubException s)"
    and "(\<exists>y. dumps J v = Inl y) \<longrightarrow> r \<noteq> Inr () \<and> (\<forall>x \<in> set a. fst x = GetContents)"
  using attempt_trace_all [OF assms] by blast+

lemma write_github_trace:
  "write_github J v m n as w = (ok, w') \<Longrightarrow>
   \<exists>t. calls w' = calls w @ t
      \<and> length (filter (\<lambda>x. fst x = GetContents) t) \<le> length as
      \<and> (t \<noteq> [] \<longrightarrow> fst (hd t) = GetContents)
      \<and> successively follows t
      \<and> (ok \<longleftrightarrow> t \<noteq> [] \<and> snd (last t) = Done)
      \<and> ((\<exists>y. dumps J v = Inl y) \<longrightarrow> \<not> ok \<and> (\<forall>x \<in> set t. fst x = GetContents))"
proof (induction as arbitrary: w ok w')
  case Nil
  then show ?case by auto
next
  case (Cons i as)
  obtain r w1 where att: "update_or_create J v m w = (r, w1)"
    by (cases "update_or_create J v m w")
  from update_or_create_trace [OF att] obtain a where
    a: "calls w1 = calls w @ a" "attempt_trace J v m r a" by blast
  note p = attempt_trace_props [OF a(2)]
  show ?case
  proof (cases "\<exists>s. r = Inl (GithubException s) \<and> s = 409 \<and> i < n - 1")
    case True
    with Cons.prems att have rec: "write_github J v m n as w1 = (ok, w')" by auto
    from Cons.IH [OF rec] obtain t where
      t: "calls w' = calls w1 @ t"
        "length (filter (\<lambda>x. fst x = GetContents) t) \<le> length as"
        "t \<noteq> [] \<longrightarrow> fst (hd t) = GetContents"
        "successively follows t"
        "ok \<longleftrightarrow> t \<noteq> [] \<and> snd (last t) = Done"
        "(\<exists>y. dumps J v = Inl y) \<longrightarrow> \<not> ok \<and> (\<forall>x \<in> set t. fst x = GetContents)"
      by blast
    from True p(6) have la: "snd (last a) = Raised (GithubException 409)" by auto
    have j: "t \<noteq> [] \<Longrightarrow> follows (last a) (hd t)"
      using la t(3) conflict_not_final [of "last a"] by (auto simp: follows_def)
    have 1: "calls w' = calls w @ (a @ t)" using a(1) t(1) by simp
    have 2: "length (filter (\<lambda>x. fst x = GetContents) (a @ t)) \<le> length (i # as)"
      using p(3) t(2) by simp
    have 3: "a @ t \<noteq> [] \<longrightarrow> fst (hd (a @ t)) = GetContents" using p(1,2) by simp
    have 4: "successively follows (a @ t)"
      using p(1,4) t(4) j by (auto simp: successively_append_iff)
    have 5: "ok \<longleftrightarrow> a @ t \<noteq> [] \<and> snd (last (a @ t)) = Done"
      using t(5) la p(1) by (cases "t = []") auto
    have 6: "(\<exists>y. dumps J v = Inl y) \<longrightarrow> \<not> ok \<and> (\<forall>x \<in> set (a @ t). fst x = GetContents)"
      using t(6) p(7) by auto
    from 1 2 3 4 5 6 show ?thesis by blast
  next
    case False
    with Cons.prems att have fin: "ok = (r = Inr ())" "w' = w1"
      by (auto split: sum.splits pyexc.splits if_splits)
    have 2: "length (filter (\<lambda>x. fst x = GetContents) a) \<le> length (i # as)"
      using p(3) by simp
    have 5: "ok \<longleftrightarrow> a \<noteq> [] \<and> snd (last a) = Done" using fin(1) p(1,5) by simp
    have 6: "(\<exists>y. dumps J v = Inl y) \<longrightarrow> \<not> ok \<and> (\<forall>x \<in> set a. fst x = GetContents)"
      using fin(1) p(7) by auto
    from a(1) fin(2) 2 p(2,4) 5 6 show ?thesis by blast
  qed
qed

lemma successively_nth:
  "successively P xs \<Longrightarrow> Suc i < length xs \<Longrightarrow> P (xs ! i) (xs ! Suc i)"
proof (induction xs arbitrary: i)
  case Nil
  then show ?case by simp
next
  case (Cons x xs)
  then show ?case by (cases i; cases xs) (auto simp: successively_Cons)
qed

lemma attempt_trace_forward:
  assumes "attempt_trace J v m r a"
  shows "successively (leads J v m) a
       \<and> \<not> pending J v (last a)
       \<and> (snd (last a) = Raised (GithubException 409) \<longrightarrow> r = Inl (GithubException 409))"
  using assms
proof (cases rule: attempt_trace.cases)
  case (fetch_failed e)
  then show ?thesis by (auto simp: pending_def)
next
  case (absent_not_serialised y)
  then show ?thesis by (auto simp: pending_def)
next
  case (absent_create body)
  then show ?thesis by (auto simp: leads_def pending_def outcome_def split: sum.splits)
next
  case (found_not_serialised y c sha)
  then show ?thesis by (auto simp: pending_def)
next
  case (updated body c sha)
  then show ?thesis by (auto simp: leads_def pending_def)
next
  case (update_failed body e c sha)
  then show ?thesis by (auto simp: leads_def pending_def)
next
  case (vanished_create body c sha)
  then show ?thesis by (auto simp: leads_def pending_def outcome_def split: sum.splits)
qed

lemma write_github_forward:
  "write_github J v m n as w = (ok, w') \<Longrightarrow> as = [k..n - 1] \<Longrightarrow>
   \<exists>t. calls w' = calls w @ t
      \<and> (as \<noteq> [] \<longrightarrow> t \<noteq> [])
      \<and> (t \<noteq> [] \<longrightarrow> fst (hd t) = GetContents)
      \<and> successively (leads J v m) t
      \<and> (t \<noteq> [] \<longrightarrow> \<not> pending J v (last t))
      \<and> (t \<noteq> [] \<and> snd (last t) = Raised (GithubException 409) \<longrightarrow>
            length (filter (\<lambda>x. fst x = GetContents) t) = length as)"
proof (induction as arbitrary: w ok w' k)
  case Nil
  then show ?case by auto
next
  case (Cons i as)
  from Cons.prems(2) have ik: "i = k" "as = [k + 1..n - 1]"
    by (auto simp: upto.simps [of k "n - 1"] split: if_splits)
  then have more: "i < n - 1 \<longleftrightarrow> as \<noteq> []" by auto
  from Cons.prems have run: "write_github J v m n (i # as) w = (ok, w')" by simp
  obtain r w1 where att: "update_or_create J v m w = (r, w1)"
    by (cases "update_or_create J v m w")
  from update_or_create_trace [OF att] obtain a where
    a: "calls w1 = calls w @ a" "attempt_trace J v m r a" by blast
  note p = attempt_trace_props [OF a(2)]
  from attempt_trace_forward [OF a(2)] have
    q: "successively (leads J v m) a" "\<not> pending J v (last a)"
      "snd (last a) = Raised (GithubException 409) \<longrightarrow> r = Inl (GithubException 409)"
    by blast+
  show ?case
  proof (cases "r = Inl (GithubException 409) \<and> i < n - 1")
    case True
    with run att have rec: "write_github J v m n as w1 = (ok, w')" by auto
    from Cons.IH [OF rec ik(2)] obtain t where
      t: "calls w' = calls w1 @ t"
        "as \<noteq> [] \<longrightarrow> t \<noteq> []"
        "t \<noteq> [] \<longrightarrow> fst (hd t) = GetContents"
        "successively (leads J v m) t"
        "t \<noteq> [] \<longrightarrow> \<not> pending J v (last t)"
        "t \<noteq> [] \<and> snd (last t) = Raised (GithubException 409) \<longrightarrow>
            length (filter (\<lambda>x. fst x = GetContents) t) = length as"
      by blast
    from True more t(2) have tne: "t \<noteq> []" by simp
    from True p(6) have la: "snd (last a) = Raised (GithubException 409)" by auto
    have j: "leads J v m (last a) (hd t)"
      using la t(3) tne by (cases "last a") (auto simp: leads_def)
    have 1: "calls w' = calls w @ (a @ t)" using a(1) t(1) by simp
    have 3: "a @ t \<noteq> [] \<longrightarrow> fst (hd (a @ t)) = GetContents" using p(1,2) by simp
    have 4: "successively (leads J v m) (a @ t)"
      using p(1) q(1) t(4) j by (auto simp: successively_append_iff)
    have 5: "a @ t \<noteq> [] \<longrightarrow> \<not> pending J v (last (a @ t))" using tne t(5) by simp
    have 6: "a @ t \<noteq> [] \<and> snd (last (a @ t)) = Raised (GithubException 409) \<longrightarrow>
            length (filter (\<lambda>x. fst x = GetContents) (a @ t)) = length (i # as)"
      using tne t(6) p(3) by simp
    from 1 3 4 5 6 tne show ?thesis by blast
  next
    case False
    with run att have fin: "w' = w1"
      by (auto split: sum.splits pyexc.splits if_splits)
    have 6: "a \<noteq> [] \<and> snd (last a) = Raised (GithubException 409) \<longrightarrow>
            length (filter (\<lambda>x. fst x = GetContents) a) = length (i # as)"
      using False q(3) more p(3) by auto
    from a(1) fin p(1,2) q(1,2) 6 show ?thesis by blast
  qed
qed

text \<open>
  C1. On the remote backend, for the calls \<open>t\<close> made by one \<^verbatim>\<open>write_data\<close>:
  \<^item> at most \<open>max_retries\<close> of them are fetches, and each attempt makes exactly one, first;
    with \<open>max_retries\<close> positive the first fetch is made;
  \<^item> a fetch that is not the first call comes right after a call answered with status 409:
    only a conflict is retried;
  \<^item> a call answered with status 409 is followed by a new fetch as long as fewer than
    \<open>max_retries\<close> fetches have been made: a conflict with attempts left is retried; hence
    when the last call is answered with 409, exactly \<open>max_retries\<close> attempts have been made;
  \<^item> an update comes right after the fetch that returned the token it passes, and a fetch
    that finds the blob is followed by the update of the serialised document with that
    token;
  \<^item> a 404 answered to a fetch or to an update is followed by the creation of the blob with
    the serialised document;
  \<^item> a failure that is not a conflict (an exception that is no \<^verbatim>\<open>GithubException\<close>, a status
    other than 404 and 409, or any status but 409 answered to \<^verbatim>\<open>create_file\<close>) is the last
    call: nothing is attempted after it;
  \<^item> the result is true exactly when the last call succeeded as an update or a creation; so
    it is false when the last attempt ended in a conflict or in any other failure, and when
    no attempt was made;
  \<^item> when the document cannot be serialised the result is false and neither
    \<^verbatim>\<open>update_file\<close> nor \<^verbatim>\<open>create_file\<close> is called.
\<close>

theorem write_retry_policy:
  assumes "\<not> use_local self"
    and "write_data J self w v commit_message max_retries = (ok, w')"
  shows "calls w' = calls w @ trace_of w w'
       \<and> length (filter (\<lambda>x. fst x = GetContents) (trace_of w w')) \<le> nat max_retries
       \<and> (trace_of w w' \<noteq> [] \<longrightarrow> fst (hd (trace_of w w')) = GetContents)
       \<and> (\<forall>i. Suc i < length (trace_of w w') \<and> fst (trace_of w w' ! Suc i) = GetContents \<longrightarrow>
              snd (trace_of w w' ! i) = Raised (GithubException 409))
       \<and> (\<forall>i m b s. i < length (trace_of w w') \<and> fst (trace_of w w' ! i) = UpdateFile m b s \<longrightarrow>
              0 < i \<and> (\<exists>c. trace_of w w' ! (i - 1) = (GetContents, Fetched c s)))
       \<and> (\<forall>i. i < length (trace_of w w') \<and> non_conflict_failure (trace_of w w' ! i) \<longrightarrow>
              Suc i = length (trace_of w w'))
       \<and> (ok \<longleftrightarrow> trace_of w w' \<noteq> [] \<and> snd (last (trace_of w w')) = Done)
       \<and> ((\<exists>y. dumps J v = Inl y) \<longrightarrow>
              \<not> ok \<and> (\<forall>x \<in> set (trace_of w w'). fst x = GetContents))
       \<and> (0 < max_retries \<longrightarrow> trace_of w w' \<noteq> [])
       \<and> (\<forall>i. i < length (trace_of w w')
              \<and> snd (trace_of w w' ! i) = Raised (GithubException 409)
              \<and> length (filter (\<lambda>x. fst x = GetContents) (take (Suc i) (trace_of w w')))
                  < nat max_retries \<longrightarrow>
              Suc i < length (trace_of w w') \<and> fst (trace_of w w' ! Suc i) = GetContents)
       \<and> (trace_of w w' \<noteq> [] \<and> snd (last (trace_of w w')) = Raised (GithubException 409) \<longrightarrow>
              length (filter (\<lambda>x. fst x = GetContents) (trace_of w w')) = nat max_retries)
       \<and> (\<forall>i c s body. i < length (trace_of w w')
              \<and> trace_of w w' ! i = (GetContents, Fetched c s) \<and> dumps J v = Inr body \<longrightarrow>
              Suc i < length (trace_of w w')
              \<and> fst (trace_of w w' ! Suc i) = UpdateFile commit_message body s)
       \<and> (\<forall>i body. i < length (trace_of w w')
              \<and> snd (trace_of w w' ! i) = Raised (GithubException 404)
              \<and> (\<forall>m b. fst (trace_of w w' ! i) \<noteq> CreateFile m b) \<and> dumps J v = Inr body \<longrightarrow>
              Suc i < length (trace_of w w')
              \<and> fst (trace_of w w' ! Suc i) = CreateFile commit_message body)"
proof -
  from assms have
    run: "write_github J v commit_message max_retries (py_range max_retries) w = (ok, w')"
    by (simp add: write_data_def)
  from write_github_trace [OF run] obtain t where
    t: "calls w' = calls w @ t"
      "length (filter (\<lambda>x. fst x = GetContents) t) \<le> length (py_range max_retries)"
      "t \<noteq> [] \<longrightarrow> fst (hd t) = GetContents"
      "successively follows t"
      "ok \<longleftrightarrow> t \<noteq> [] \<and> snd (last t) = Done"
      "(\<exists>y. dumps J v = Inl y) \<longrightarrow> \<not> ok \<and> (\<forall>x \<in> set t. fst x = GetContents)"
    by blast
  from t(1) have tr: "trace_of w w' = t" by (simp add: trace_of_def)
  have len: "length (py_range max_retries) = nat max_retries" by (simp add: py_range_def)
  have rng: "py_range max_retries = [0..max_retries - 1]" by (simp add: py_range_def)
  from write_github_forward [OF run rng] obtain u where
    u: "calls w' = calls w @ u"
      "py_range max_retries \<noteq> [] \<longrightarrow> u \<noteq> []"
      "successively (leads J v commit_message) u"
      "u \<noteq> [] \<longrightarrow> \<not> pending J v (last u)"
      "u \<noteq> [] \<and> snd (last u) = Raised (GithubException 409) \<longrightarrow>
         length (filter (\<lambda>x. fst x = GetContents) u) = length (py_range max_retries)"
    by blast
  from u(1) t(1) have ut: "u = t" by simp
  note f = u(2-5) [unfolded ut]
  have adj: "follows (t ! i) (t ! Suc i)" if "Suc i < length t" for i
    using t(4) that by (rule successively_nth)
  have fwd: "leads J v commit_message (t ! i) (t ! Suc i)" if "Suc i < length t" for i
    using f(2) that by (rule successively_nth)
  have lastnth: "last t = t ! i" if "i < length t" "\<not> Suc i < length t" for i
  proof -
    from that have "i = length t - 1" "t \<noteq> []" by auto
    then show ?thesis by (simp add: last_conv_nth)
  qed
  have a: "snd (t ! i) = Raised (GithubException 409)"
    if "Suc i < length t" "fst (t ! Suc i) = GetContents" for i
    using adj [OF that(1)] that(2) by (simp add: follows_def)
  have b: "0 < i \<and> (\<exists>c. t ! (i - 1) = (GetContents, Fetched c s))"
    if "i < length t" "fst (t ! i) = UpdateFile m b s" for i m b s
  proof (cases i)
    case 0
    with that t(3) show ?thesis by (cases t) auto
  next
    case (Suc k)
    with that adj [of k] show ?thesis by (auto simp: follows_def)
  qed
  have c: "Suc i = length t" if "i < length t" "non_conflict_failure (t ! i)" for i
  proof (rule ccontr)
    assume "Suc i \<noteq> length t"
    with that(1) have "Suc i < length t" by simp
    from adj [OF this] that(2) show False by (simp add: follows_def)
  qed
  have d: "length (filter (\<lambda>x. fst x = GetContents) t) \<le> nat max_retries"
    using t(2) len by simp
  have e: "\<forall>i. Suc i < length t \<and> fst (t ! Suc i) = GetContents \<longrightarrow>
              snd (t ! i) = Raised (GithubException 409)"
    using a by blast
  have g: "\<forall>i m b s. i < length t \<and> fst (t ! i) = UpdateFile m b s \<longrightarrow>
              0 < i \<and> (\<exists>c. t ! (i - 1) = (GetContents, Fetched c s))"
    using b by blast
  have h: "\<forall>i. i < length t \<and> non_conflict_failure (t ! i) \<longrightarrow> Suc i = length t"
    using c by blast
  have k: "0 < max_retries \<longrightarrow> t \<noteq> []"
    using f(1) len by auto
  have l: "length (filter (\<lambda>x. fst x = GetContents) t) = nat max_retries"
    if "t \<noteq> []" "snd (last t) = Raised (GithubException 409)"
    using f(4) that len by simp
  have m: "Suc i < length t \<and> fst (t ! Suc i) = GetContents"
    if "i < length t" "snd (t ! i) = Raised (GithubException 409)"
      "length (filter (\<lambda>x. fst x = GetContents) (take (Suc i) t)) < nat max_retries" for i
  proof (cases "Suc i < length t")
    case True
    with fwd [OF True] that(2) show ?thesis by (simp add: leads_def)
  next
    case False
    with that(1) have "take (Suc i) t = t" "t \<noteq> []" by auto
    with lastnth [OF that(1) False] that(2,3) l show ?thesis by simp
  qed
  have n: "Suc i < length t \<and> fst (t ! Suc i) = UpdateFile commit_message body s"
    if "i < length t" "t ! i = (GetContents, Fetched c s)" "dumps J v = Inr body" for i c s body
  proof (cases "Suc i < length t")
    case True
    with fwd [OF True] that(2,3) show ?thesis by (simp add: leads_def)
  next
    case False
    from that(1) have "t \<noteq> []" by auto
    with f(3) lastnth [OF that(1) False] that(2,3) show ?thesis by (auto simp: pending_def)
  qed
  have p: "Suc i < length t \<and> fst (t ! Suc i) = CreateFile commit_message body"
    if "i < length t" "snd (t ! i) = Raised (GithubException 404)"
      "\<forall>m b. fst (t ! i) \<noteq> CreateFile m b" "dumps J v = Inr body" for i body
  proof (cases "Suc i < length t")
    case True
    with fwd [OF True] that(2,3,4) show ?thesis by (simp add: leads_def)
  next
    case False
    from that(1) have "t \<noteq> []" by auto
    with f(3) lastnth [OF that(1) False] that(2,3,4) show ?thesis by (auto simp: pending_def)
  qed
  have q: "\<forall>i. i < length t \<and> snd (t ! i) = Raised (GithubException 409)
              \<and> length (filter (\<lambda>x. fst x = GetContents) (take (Suc i) t)) < nat max_retries \<longrightarrow>
              Suc i < length t \<and> fst (t ! Suc i) = GetContents"
    using m by blast
  have r: "t \<noteq> [] \<and> snd (last t) = Raised (GithubException 409) \<longrightarrow>
              length (filter (\<lambda>x. fst x = GetContents) t) = nat max_retries"
    using l by blast
  have s: "\<forall>i c s body. i < length t \<and> t ! i = (GetContents, Fetched c s)
              \<and> dumps J v = Inr body \<longrightarrow>
              Suc i < length t \<and> fst (t ! Suc i) = UpdateFile commit_message body s"
    using n by blast
  have x: "\<forall>i body. i < length t \<and> snd (t ! i) = Raised (GithubException 404)
              \<and> (\<forall>m b. fst (t ! i) \<noteq> CreateFile m b) \<and> dumps J v = Inr body \<longrightarrow>
              Suc i < length t \<and> fst (t ! Suc i) = CreateFile commit_message body"
    using p by blast
  show ?thesis unfolding tr
    using t(1) d t(3) e g h t(5) t(6) k q r s x by (intro conjI) assumption+
qed

theorem write_retry_policy_witness:
  "\<not> use_local remote_db
   \<and> map snd (trace_of denied_world
        (snd (write_data py_json remote_db denied_world visitors_doc ''Increment'' 3)))
       = [Fetched ''{}'' 0, Raised (GithubException 409),
          Fetched ''{}'' 0, Raised (GithubException 401)]
   \<and> non_conflict_failure (trace_of denied_world
        (snd (write_data py_json remote_db denied_world visitors_doc ''Increment'' 3)) ! 3)
   \<and> \<not> fst (write_data py_json remote_db denied_world visitors_doc ''Increment'' 3)
   \<and> map snd (trace_of conflict_world
        (snd (write_data py_json remote_db conflict_world visitors_doc ''Increment'' 3)))
       = [Fetched ''{}'' 0, Raised (GithubException 409),
          Fetched ''{}'' 0, Raised (GithubException 409),
          Fetched ''{}'' 0, Raised (GithubException 409)]
   \<and> length (filter (\<lambda>x. fst x = GetContents) (trace_of conflict_world
        (snd (write_data py_json remote_db conflict_world visitors_doc ''Increment'' 3)))) = 3
   \<and> \<not> fst (write_data py_json remote_db conflict_world visitors_doc ''Increment'' 3)
   \<and> map snd (trace_of conflict_world
        (snd (write_data py_json remote_db conflict_world visitors_doc ''Increment'' 2)))
       = [Fetched ''{}'' 0, Raised (GithubException 409),
          Fetched ''{}'' 0, Raised (GithubException 409)]
   \<and> map snd (trace_of vanished_world
        (snd (write_data py_json remote_db vanished_world visitors_doc ''Increment'' 3)))
       = [Fetched ''{}'' 0, Raised (GithubException 404), Raised (GithubException 409),
          Fetched ''{}'' 0, Done]
   \<and> fst (write_data py_json remote_db vanished_world visitors_doc ''Increment'' 3)
   \<and> map snd (trace_of contended_world
        (snd (write_data py_json remote_db contended_world visitors_doc ''Increment'' 3)))
       = [Fetched ''{}'' 0, Raised (GithubException 409), Fetched ''null'' 1, Done]
   \<and> fst (write_data py_json remote_db contended_world visitors_doc ''Increment'' 3)
   \<and> dumps py_json (PSet []) = Inl OtherException
   \<and> \<not> fst (write_data py_json remote_db contended_world (PSet []) ''Increment'' 3)"
proof -
  let ?d = "write_data py_json remote_db denied_world visitors_doc ''Increment'' 3"
  let ?c = "write_data py_json remote_db conflict_world visitors_doc ''Increment'' 3"
  let ?c2 = "write_data py_json remote_db conflict_world visitors_doc ''Increment'' 2"
  let ?v = "write_data py_json remote_db vanished_world visitors_doc ''Increment'' 3"
  let ?k = "write_data py_json remote_db contended_world visitors_doc ''Increment'' 3"
  let ?s = "write_data py_json remote_db contended_world (PSet []) ''Increment'' 3"
  have nl: "\<not> use_local remote_db" by (simp add: remote_db_def)
  have td: "map snd (trace_of denied_world (snd ?d))
             = [Fetched ''{}'' 0, Raised (GithubException 409),
                Fetched ''{}'' 0, Raised (GithubException 401)]"
    by code_simp
  have nd: "non_conflict_failure (trace_of denied_world (snd ?d) ! 3)" by code_simp
  have tc: "map snd (trace_of conflict_world (snd ?c))
             = [Fetched ''{}'' 0, Raised (GithubException 409),
                Fetched ''{}'' 0, Raised (GithubException 409),
                Fetched ''{}'' 0, Raised (GithubException 409)]"
    by code_simp
  have tc2: "map snd (trace_of conflict_world (snd ?c2))
             = [Fetched ''{}'' 0, Raised (GithubException 409),
                Fetched ''{}'' 0, Raised (GithubException 409)]"
    by code_simp
  have tv: "map snd (trace_of vanished_world (snd ?v))
             = [Fetched ''{}'' 0, Raised (GithubException 404), Raised (GithubException 409),
                Fetched ''{}'' 0, Done]"
    by code_simp
  have tk: "map snd (trace_of contended_world (snd ?k))
             = [Fetched ''{}'' 0, Raised (GithubException 409), Fetched ''null'' 1, Done]"
    by code_simp
  have ds: "dumps py_json (PSet []) = Inl OtherException" by code_simp
  have lastsnd: "snd (last xs) = last (map snd xs)" if "xs \<noteq> []" for xs :: "(request \<times> response) list"
    using that by (simp add: last_map)
  have ne: "trace_of denied_world (snd ?d) \<noteq> []" "trace_of conflict_world (snd ?c) \<noteq> []"
    "trace_of vanished_world (snd ?v) \<noteq> []" "trace_of contended_world (snd ?k) \<noteq> []"
    using td tc tv tk by auto
  have ld: "snd (last (trace_of denied_world (snd ?d))) = Raised (GithubException 401)"
    using lastsnd [OF ne(1)] td by simp
  have lc: "snd (last (trace_of conflict_world (snd ?c))) = Raised (GithubException 409)"
    using lastsnd [OF ne(2)] tc by simp
  have lv: "snd (last (trace_of vanished_world (snd ?v))) = Done"
    using lastsnd [OF ne(3)] tv by simp
  have lk: "snd (last (trace_of contended_world (snd ?k))) = Done"
    using lastsnd [OF ne(4)] tk by simp
  have fd: "\<not> fst ?d"
    using write_retry_policy [OF nl prod.collapse [symmetric], of py_json denied_world] ld by simp
  have fc: "\<not> fst ?c"
    "length (filter (\<lambda>x. fst x = GetContents) (trace_of conflict_world (snd ?c))) = 3"
    using write_retry_policy [OF nl prod.collapse [symmetric], of py_json conflict_world
        visitors_doc "''Increment''" 3] lc ne(2)
    by simp_all
  have fv: "fst ?v"
    using write_retry_policy [OF nl prod.collapse [symmetric], of py_json vanished_world
        visitors_doc "''Increment''" 3] lv ne(3)
    by simp
  have fk: "fst ?k"
    using write_retry_policy [OF nl prod.collapse [symmetric], of py_json contended_world
        visitors_doc "''Increment''" 3] lk ne(4)
    by simp
  have fs: "\<not> fst ?s"
    using write_retry_policy [OF nl prod.collapse [symmetric], of py_json contended_world
        "PSet []" "''Increment''" 3] ds
    by blast
  from nl td nd fd tc fc(2) fc(1) tc2 tv fv tk fk ds fs show ?thesis
    by (intro conjI) assumption+
qed

lemma collect_entries_eq:
  "collect_entries keywords now es (articles, n) =
     (articles @ map (\<lambda>(k, e). to_article (now k) e)
        (enumerate n (filter (\<lambda>e. keyword_hit keywords (text_content e)) (readable keywords es))),
      n + length (filter (\<lambda>e. keyword_hit keywords (text_content e)) (readable keywords es)))"
proof (induction es arbitrary: articles n)
  case Nil
  then show ?case by (simp add: readable_def)
next
  case (Cons e es)
  show ?case
  proof (cases "entry_title e")
    case None
    then show ?thesis by (simp add: readable_def)
  next
    case (Some t)
    show ?thesis
    proof (cases "keyword_hit keywords (text_content e)")
      case False
      with Some Cons.IH [of articles n] show ?thesis
        by (simp add: readable_def text_content_def get_or_def)
    next
      case True
      show ?thesis
      proof (cases "entry_link e")
        case None
        with Some True show ?thesis
          by (simp add: readable_def text_content_def get_or_def)
      next
        case (Some l)
        with \<open>entry_title e = Some t\<close> True
          Cons.IH [of "articles @ [to_article (now n) e]" "Suc n"]
        show ?thesis
          by (simp add: readable_def text_content_def to_article_def get_or_def)
      qed
    qed
  qed
qed

lemma collect_feeds_eq:
  "collect_feeds parse now keywords feeds (articles, n) =
     (articles @ map (\<lambda>(k, e). to_article (now k) e) (enumerate n (selected parse keywords feeds)),
      n + length (selected parse keywords feeds))"
proof (induction feeds arbitrary: articles n)
  case Nil
  then show ?case by (simp add: selected_def)
next
  case (Cons url feeds)
  show ?case
  proof (cases "parse url")
    case ParseRaises
    with Cons.IH [of articles n] show ?thesis by (simp add: selected_def)
  next
    case (Feed bozo es)
    show ?thesis
    proof (cases bozo)
      case True
      with Feed Cons.IH [of articles n] show ?thesis by (simp add: selected_def)
    next
      case False
      with Feed show ?thesis
        by (simp add: collect_entries_eq Cons.IH selected_def enumerate_append_eq add.commute)
    qed
  qed
qed

text \<open>
  C7, as stated: an article of a feed is among the articles collected (before the cap)
  exactly when the keyword list is empty or a keyword occurs in its text. A feed that
  \<^verbatim>\<open>feedparser\<close> flags with \<^verbatim>\<open>bozo\<close> is skipped at lines 56 to 58 with all its entries: with an
  empty keyword list the entry of such a feed passes the test of line 65, and nothing is
  returned.
\<close>

theorem fetch_news_bozo_counterexample:
  "keyword_hit [] (text_content rates_entry)
   \<and> bozo_feed ''http://feed'' = Feed True [rates_entry]
   \<and> fetch_news bozo_feed wall_clock [''http://feed''] [] = []"
  by (simp add: fetch_news_def keyword_hit_def bozo_feed_def)

text \<open>
  C7, amended. For every parser, clock, feed list and keyword list, \<^verbatim>\<open>fetch_news\<close> returns at
  most 30 articles, and these are the first 30 of the articles built, each at its own
  reading of the clock, from the selected entries: the entries, in the order of the feeds
  and of their entries, that pass the keyword test among those the feeds contribute. The
  keyword test on a text (title, a space, summary) holds exactly when the keyword list is
  empty or some keyword occurs in the text as a contiguous substring. A feed whose parsing
  raises or sets the \<^verbatim>\<open>bozo\<close> flag contributes no entry; any other feed contributes its
  entries up to the first one that has no title or that passes the test and has no link,
  hence all of them when each has a title and a link.
\<close>

theorem fetch_news_result:
  "fetch_news parse now feeds keywords =
     take 30 (map (\<lambda>(k, e). to_article (now k) e) (enumerate 0 (selected parse keywords feeds)))
   \<and> length (fetch_news parse now feeds keywords) \<le> 30
   \<and> selected parse keywords feeds =
       filter (\<lambda>e. keyword_hit keywords (text_content e))
         (concat (map (\<lambda>url. usable keywords (parse url)) feeds))
   \<and> (keyword_hit keywords content \<longleftrightarrow>
        keywords = [] \<or> (\<exists>k \<in> set keywords. \<exists>pre post. content = pre @ k @ post))
   \<and> usable keywords ParseRaises = []
   \<and> usable keywords (Feed True es) = []
   \<and> (\<exists>rest. es = usable keywords (Feed False es) @ rest
        \<and> (\<forall>e \<in> set (usable keywords (Feed False es)).
              entry_title e \<noteq> None
              \<and> (keyword_hit keywords (text_content e) \<longrightarrow> entry_link e \<noteq> None))
        \<and> (rest \<noteq> [] \<longrightarrow>
              entry_title (hd rest) = None
              \<or> (keyword_hit keywords (text_content (hd rest)) \<and> entry_link (hd rest) = None)))
   \<and> ((\<forall>e \<in> set es. entry_title e \<noteq> None \<and> entry_link e \<noteq> None) \<longrightarrow>
        usable keywords (Feed False es) = es)"
proof -
  let ?ok = "\<lambda>e. entry_title e \<noteq> None
                \<and> (keyword_hit keywords (text_content e) \<longrightarrow> entry_link e \<noteq> None)"
  have a: "fetch_news parse now feeds keywords =
     take 30 (map (\<lambda>(k, e). to_article (now k) e) (enumerate 0 (selected parse keywords feeds)))"
    by (simp add: fetch_news_def collect_feeds_eq)
  have b: "length (fetch_news parse now feeds keywords) \<le> 30"
    by (simp add: fetch_news_def)
  have c: "keyword_hit keywords content \<longleftrightarrow>
        keywords = [] \<or> (\<exists>k \<in> set keywords. \<exists>pre post. content = pre @ k @ post)"
    by (simp add: keyword_hit_def list_ex_iff sublist_def)
  have d: "\<exists>rest. es = usable keywords (Feed False es) @ rest
        \<and> (\<forall>e \<in> set (usable keywords (Feed False es)). ?ok e)
        \<and> (rest \<noteq> [] \<longrightarrow>
              entry_title (hd rest) = None
              \<or> (keyword_hit keywords (text_content (hd rest)) \<and> entry_link (hd rest) = None))"
  proof (intro exI [of _ "dropWhile ?ok es"] conjI)
    show "es = usable keywords (Feed False es) @ dropWhile ?ok es"
      by (simp add: readable_def)
    show "\<forall>e \<in> set (usable keywords (Feed False es)). ?ok e"
      by (auto simp: readable_def dest: set_takeWhileD)
    show "dropWhile ?ok es \<noteq> [] \<longrightarrow>
              entry_title (hd (dropWhile ?ok es)) = None
              \<or> (keyword_hit keywords (text_content (hd (dropWhile ?ok es)))
                  \<and> entry_link (hd (dropWhile ?ok es)) = None)"
      using hd_dropWhile [of ?ok es] by blast
  qed
  have e: "usable keywords (Feed False es) = es"
    if "\<forall>e \<in> set es. entry_title e \<noteq> None \<and> entry_link e \<noteq> None"
    using that by (simp add: readable_def takeWhile_eq_all_conv)
  from a b c d e show ?thesis by (simp add: selected_def)
qed

theorem fetch_news_result_witness:
  "selected news_feed [''goal'', ''Rates'', ''Bonds'']
       [''http://broken'', ''http://feed'', ''http://down'']
     = [rates_entry, sports_entry, bonds_entry]
   \<and> fetch_news news_feed wall_clock [''http://broken'', ''http://feed'', ''http://down'']
        [''goal'', ''Rates'', ''Bonds'']
      = [\<lparr>title = ''Rates rise'', link = ''http://news/1'',
          published = ''2024-01-01 09:00:00'', summary = []\<rparr>,
         \<lparr>title = ''Cup final'', link = ''http://news/2'', published = ''Mon'',
          summary = ''A late goal''\<rparr>,
         \<lparr>title = ''Bonds fall'', link = ''http://news/3'',
          published = ''2024-01-01 09:00:02'', summary = ''Yields up''\<rparr>]
   \<and> selected news_feed [''stock''] [''http://feed''] = []
   \<and> fetch_news news_feed wall_clock [''http://feed''] [''stock''] = []"
proof -
  let ?feeds = "[''http://broken'', ''http://feed'', ''http://down'']"
  let ?kw = "[''goal'', ''Rates'', ''Bonds'']"
  have s: "selected news_feed ?kw ?feeds = [rates_entry, sports_entry, bonds_entry]"
    by code_simp
  have n: "selected news_feed [''stock''] [''http://feed''] = []"
    by code_simp
  have c: "wall_clock 0 = ''2024-01-01 09:00:00''"
    "wall_clock (Suc (Suc 0)) = ''2024-01-01 09:00:02''"
    by code_simp+
  show ?thesis
    using fetch_news_result [of news_feed wall_clock ?feeds ?kw, THEN conjunct1]
      fetch_news_result [of news_feed wall_clock "[''http://feed'']" "[''stock'']", THEN conjunct1]
      s n c
    by (simp add: to_article_def get_or_def rates_entry_def sports_entry_def bonds_entry_def
          enumerate_eq_zip upt_rec)
qed

end
